theory Spec2Isabelle
  imports Complex_Main "HOL-Library.Multiset"
begin

section \<open>Data model\<close>

text \<open>
  The three scripts are straight-line numpy/pandas programs. Floating-point
  numbers are idealised as reals. A numpy array is a list; a two-dimensional
  array is the list of its rows. A pandas DataFrame is the list of its columns
  in column order, each a name with its values. A frame read from a CSV log can
  have missing cells (NaN), written \<open>None\<close>; a frame built from finite arrays,
  or left over after \<open>dropna\<close>, has none, and its cells are plain reals.
\<close>

datatype py_error = ValueError | IndexError | KeyError

type_synonym 'a frame = "(string \<times> 'a list) list"

definition columns :: "'a frame \<Rightarrow> string list" where
  "columns df = map fst df"

definition nrows :: "'a frame \<Rightarrow> nat" where
  "nrows df = (case df of [] \<Rightarrow> 0 | (_, vs) # _ \<Rightarrow> length vs)"

text \<open>\<open>pd.DataFrame({...})\<close> from arrays: all arrays must have one length.\<close>

definition DataFrame :: "(string \<times> 'a list) list \<Rightarrow> py_error + 'a frame" where
  "DataFrame cols =
     (if \<forall>c \<in> set cols. length (snd c) = length (snd (hd cols))
      then Inr cols else Inl ValueError)"

section \<open>convert\_thrust\_lookup.py\<close>

subsection \<open>melt\_grid\<close>

text \<open>\<open>np.meshgrid(a, b, indexing="ij")\<close>: \<open>V[i][j] = a[i]\<close>, \<open>F[i][j] = b[j]\<close>.\<close>

definition meshgrid_ij :: "'a list \<Rightarrow> 'a list \<Rightarrow> 'a list list \<times> 'a list list" where
  "meshgrid_ij a b = (map (\<lambda>v. replicate (length b) v) a, map (\<lambda>_. b) a)"

text \<open>\<open>ravel\<close> flattens a two-dimensional array row by row.\<close>

definition ravel :: "'a list list \<Rightarrow> 'a list" where
  "ravel Z = concat Z"

definition melt_grid :: "real list \<Rightarrow> real list \<Rightarrow> real list list \<Rightarrow> py_error + real frame" where
  "melt_grid voltages forces Z =
     (case meshgrid_ij voltages forces of (V, F) \<Rightarrow>
        DataFrame [(''voltage_V'', ravel V), (''force_N'', ravel F), (''cmd'', ravel Z)])"

subsection \<open>read\_lookup\<close>

text \<open>
  \<open>np.loadtxt\<close> hands over the parsed rows of the file. Rows of different
  lengths are a \<open>ValueError\<close>; a file of fewer than two rows or fewer than two
  columns is squeezed to fewer than two dimensions, and \<open>data[0, :]\<close> is then an
  \<open>IndexError\<close>.
\<close>

definition loadtxt :: "real list list \<Rightarrow> py_error + real list list" where
  "loadtxt file_rows =
     (if \<exists>r \<in> set file_rows. length r \<noteq> length (hd file_rows) then Inl ValueError
      else Inr file_rows)"

definition ndim2 :: "real list list \<Rightarrow> bool" where
  "ndim2 data \<longleftrightarrow> 2 \<le> length data \<and> 2 \<le> length (hd data)"

text \<open>\<open>int(round(x))\<close>: Python rounds a half to the even neighbour.\<close>

definition py_round :: "real \<Rightarrow> int" where
  "py_round x =
     (let f = \<lfloor>x\<rfloor>; d = x - of_int f
      in if d < 1 / 2 then f else if 1 / 2 < d then f + 1
         else if even f then f else f + 1)"

text \<open>\<open>np.linspace(a, b, n)\<close>: \<open>n\<close> evenly spaced samples from \<open>a\<close> to \<open>b\<close>, both included.\<close>

definition linspace :: "real \<Rightarrow> real \<Rightarrow> int \<Rightarrow> py_error + real list" where
  "linspace a b n =
     (if n < 0 then Inl ValueError
      else if n = 1 then Inr [a]
      else Inr (map (\<lambda>i. a + real i * ((b - a) / real_of_int (n - 1))) [0..<nat n]))"

text \<open>The slice \<open>Z[:, :n]\<close>; a negative \<open>n\<close> counts from the end of the row.\<close>

definition slice_cols :: "int \<Rightarrow> 'a list list \<Rightarrow> 'a list list" where
  "slice_cols n Z =
     map (\<lambda>r. if 0 \<le> n then take (nat n) r else take (length r - nat (- n)) r) Z"

record lookup_meta =
  meta_N :: int
  meta_fmin :: real
  meta_fmax :: real
  meta_vmin :: real
  meta_vmax :: real

definition read_lookup ::
  "real list list \<Rightarrow> py_error + (real list \<times> real list \<times> real list list \<times> lookup_meta)" where
  "read_lookup file_rows =
     (case loadtxt file_rows of Inl e \<Rightarrow> Inl e | Inr data \<Rightarrow>
      if \<not> ndim2 data then Inl IndexError
      else
        let meta = hd data;
            Z0 = tl data;
            N = py_round (meta ! 0);
            Z = (if int (length Z0) \<noteq> N \<or> int (length meta) \<noteq> N
                 then slice_cols N Z0 else Z0)
        in if length meta < 5 then Inl IndexError
           else
             let fmin = meta ! 1; fmax = meta ! 2; vmin = meta ! 3; vmax = meta ! 4
             in case linspace fmin fmax N of Inl e \<Rightarrow> Inl e | Inr forces \<Rightarrow>
                case linspace vmin vmax N of Inl e \<Rightarrow> Inl e | Inr voltages \<Rightarrow>
                  Inr (voltages, forces, Z,
                       \<lparr>meta_N = N, meta_fmin = fmin, meta_fmax = fmax,
                        meta_vmin = vmin, meta_vmax = vmax\<rparr>))"

subsection \<open>slice\_voltage\_curve\<close>

text \<open>\<open>np.argmin\<close>: the first index of a least element; empty input is a \<open>ValueError\<close>.\<close>

definition argmin :: "real list \<Rightarrow> py_error + nat" where
  "argmin xs =
     (if xs = [] then Inl ValueError
      else Inr (length (takeWhile (\<lambda>x. x \<noteq> Min (set xs)) xs)))"

definition slice_voltage_curve ::
  "real list \<Rightarrow> real list \<Rightarrow> real list list \<Rightarrow> real option
   \<Rightarrow> py_error + (real \<times> real list \<times> real list)" where
  "slice_voltage_curve voltages forces Z target_voltage =
     (case (case target_voltage of
              None \<Rightarrow> Inr (length voltages div 2)
            | Some t \<Rightarrow> argmin (map (\<lambda>v. \<bar>v - t\<bar>) voltages)) of
        Inl e \<Rightarrow> Inl e
      | Inr idx \<Rightarrow>
          if length voltages \<le> idx then Inl IndexError
          else if length Z \<le> idx then Inl IndexError
          else Inr (voltages ! idx, forces, Z ! idx))"

subsection \<open>invert\_cmd\_vs\_force\_to\_force\_vs\_cmd\<close>

text \<open>
  \<open>np.argsort\<close> is a library routine whose default algorithm is not stable, so
  the model takes it as a parameter \<open>asort\<close> and relies on its contract only:
  the result is a permutation of the indices that puts the values in ascending
  order. \<open>stable_argsort\<close> is one such routine.
\<close>

definition valid_argsort :: "(real list \<Rightarrow> nat list) \<Rightarrow> bool" where
  "valid_argsort asort \<longleftrightarrow>
     (\<forall>xs. mset (asort xs) = mset [0..<length xs] \<and> sorted (map ((!) xs) (asort xs)))"

definition stable_argsort :: "real list \<Rightarrow> nat list" where
  "stable_argsort xs = map snd (sort_key fst (zip xs [0..<length xs]))"

text \<open>Another routine within the contract: it takes equal values in reverse order.\<close>

definition reverse_argsort :: "real list \<Rightarrow> nat list" where
  "reverse_argsort xs = map snd (sort_key fst (rev (zip xs [0..<length xs])))"

text \<open>Indexing an array with an index array, \<open>a[order]\<close>.\<close>

definition fancy_index :: "'a list \<Rightarrow> nat list \<Rightarrow> py_error + 'a list" where
  "fancy_index a idx =
     (if \<forall>i \<in> set idx. i < length a then Inr (map ((!) a) idx) else Inl IndexError)"

definition getitem :: "'a frame \<Rightarrow> string \<Rightarrow> py_error + 'a list" where
  "getitem df c = (case map_of df c of None \<Rightarrow> Inl KeyError | Some vs \<Rightarrow> Inr vs)"

definition mean :: "real list \<Rightarrow> real" where
  "mean xs = sum_list xs / real (length xs)"

definition group_vals :: "real list \<Rightarrow> 'a list \<Rightarrow> real \<Rightarrow> 'a list" where
  "group_vals keys vals k = map snd (filter (\<lambda>p. fst p = k) (zip keys vals))"

text \<open>
  \<open>df.groupby(key, as_index=False).mean(numeric_only=True)\<close> on a frame without
  missing cells: one row per distinct key in ascending key order, the key column
  first, every other column averaged over the rows of the group.
\<close>

definition groupby_mean :: "string \<Rightarrow> real frame \<Rightarrow> py_error + real frame" where
  "groupby_mean key df =
     (case map_of df key of
        None \<Rightarrow> Inl KeyError
      | Some ks \<Rightarrow>
          let uniq = sort (remdups ks)
          in Inr ((key, uniq) #
                  map (\<lambda>(c, vs). (c, map (\<lambda>k. mean (group_vals ks vs k)) uniq))
                      (filter (\<lambda>(c, vs). c \<noteq> key) df)))"

definition invert_cmd_vs_force_to_force_vs_cmd ::
  "(real list \<Rightarrow> nat list) \<Rightarrow> real list \<Rightarrow> real list \<Rightarrow> py_error + (real list \<times> real list)" where
  "invert_cmd_vs_force_to_force_vs_cmd asort cmd force =
     (let order = asort cmd in
      case fancy_index cmd order of Inl e \<Rightarrow> Inl e | Inr cmd_s \<Rightarrow>
      case fancy_index force order of Inl e \<Rightarrow> Inl e | Inr force_s \<Rightarrow>
      case DataFrame [(''cmd'', cmd_s), (''thrust_N'', force_s)] of Inl e \<Rightarrow> Inl e | Inr df \<Rightarrow>
      case groupby_mean ''cmd'' df of Inl e \<Rightarrow> Inl e | Inr g \<Rightarrow>
      case getitem g ''cmd'' of Inl e \<Rightarrow> Inl e | Inr cmd_out \<Rightarrow>
      case getitem g ''thrust_N'' of Inl e \<Rightarrow> Inl e | Inr thrust_out \<Rightarrow>
        Inr (cmd_out, thrust_out))"

subsection \<open>main\<close>

text \<open>
  What a run leaves behind: the CSV files written, in the order of writing, each
  under its file name inside the output directory, and how the run ended. A
  written table can have empty cells, so a CSV holds optional values.
\<close>

type_synonym csv = "real option frame"

datatype outcome = Completed | Raised py_error | Exited int

record run_result =
  files :: "(string \<times> csv) list"
  status :: outcome

definition to_csv :: "real frame \<Rightarrow> csv" where
  "to_csv df = map (\<lambda>(c, vs). (c, map Some vs)) df"

definition np_min :: "real list \<Rightarrow> py_error + real" where
  "np_min xs = (if xs = [] then Inl ValueError else Inr (Min (set xs)))"

definition np_max :: "real list \<Rightarrow> py_error + real" where
  "np_max xs = (if xs = [] then Inl ValueError else Inr (Max (set xs)))"

text \<open>Lines 100 to 103: the divisor and the throttle percentages.\<close>

definition throttle_span :: "real \<Rightarrow> real \<Rightarrow> real" where
  "throttle_span cmin cmax = max (cmax - cmin) (1 / 10 ^ 9)"

definition throttle_percent ::
  "real list \<Rightarrow> real option \<Rightarrow> real option \<Rightarrow> py_error + real list" where
  "throttle_percent cmd_1d min_cmd max_cmd =
     (case (case min_cmd of None \<Rightarrow> np_min cmd_1d | Some m \<Rightarrow> Inr m) of
        Inl e \<Rightarrow> Inl e
      | Inr cmin \<Rightarrow>
     (case (case max_cmd of None \<Rightarrow> np_max cmd_1d | Some m \<Rightarrow> Inr m) of
        Inl e \<Rightarrow> Inl e
      | Inr cmax \<Rightarrow>
          let span = throttle_span cmin cmax
          in Inr (map (\<lambda>c. (c - cmin) / span * 100) cmd_1d)))"

record convert_args =
  cv_name :: string
  cv_voltage :: "real option"
  cv_min_cmd :: "real option"
  cv_max_cmd :: "real option"

definition convert_main ::
  "(real list \<Rightarrow> nat list) \<Rightarrow> convert_args \<Rightarrow> real list list \<Rightarrow> run_result" where
  "convert_main asort args file_rows =
     (case read_lookup file_rows of
        Inl e \<Rightarrow> \<lparr>files = [], status = Raised e\<rparr>
      | Inr (voltages, forces, Z, meta) \<Rightarrow>
     (case melt_grid voltages forces Z of
        Inl e \<Rightarrow> \<lparr>files = [], status = Raised e\<rparr>
      | Inr df_long \<Rightarrow>
          let out_long = [(''thrust_lookup_long_'' @ cv_name args @ ''.csv'', to_csv df_long)]
          in
     (case slice_voltage_curve voltages forces Z (cv_voltage args) of
        Inl e \<Rightarrow> \<lparr>files = out_long, status = Raised e\<rparr>
      | Inr (v_sel, f_vec, cmd_vec) \<Rightarrow>
     (case invert_cmd_vs_force_to_force_vs_cmd asort cmd_vec f_vec of
        Inl e \<Rightarrow> \<lparr>files = out_long, status = Raised e\<rparr>
      | Inr (cmd_1d, thrust_1d) \<Rightarrow>
     (case throttle_percent cmd_1d (cv_min_cmd args) (cv_max_cmd args) of
        Inl e \<Rightarrow> \<lparr>files = out_long, status = Raised e\<rparr>
      | Inr throttle_pct \<Rightarrow>
     (case DataFrame [(''cmd'', cmd_1d), (''throttle_pct'', throttle_pct),
                      (''thrust_N'', thrust_1d),
                      (''voltage_V'', replicate (length cmd_1d) v_sel)] of
        Inl e \<Rightarrow> \<lparr>files = out_long, status = Raised e\<rparr>
      | Inr df_curve \<Rightarrow>
          \<lparr>files = out_long @
             [(''thrustmap_throttle_from_lookup_'' @ cv_name args @ ''.csv'', to_csv df_curve)],
           status = Completed\<rparr>))))))"

section \<open>process\_thrust\_map.py\<close>

text \<open>
  The log read by \<open>pd.read_csv\<close> is a frame of numeric columns with distinct
  names and one length, a missing cell being \<open>None\<close>.
\<close>

definition wf_frame :: "'a frame \<Rightarrow> bool" where
  "wf_frame df \<longleftrightarrow> distinct (columns df) \<and> (\<forall>c \<in> set df. length (snd c) = nrows df)"

definition pick_column :: "'a frame \<Rightarrow> string list \<Rightarrow> string option" where
  "pick_column df aliases = find (\<lambda>a. a \<in> set (columns df)) aliases"

text \<open>\<open>df.rename(columns={...})\<close>: every column named in the dictionary gets its new name.\<close>

definition rename :: "'a frame \<Rightarrow> (string \<times> string) list \<Rightarrow> 'a frame" where
  "rename df m = map (\<lambda>(c, vs). (case map_of m c of None \<Rightarrow> c | Some n \<Rightarrow> n, vs)) df"

text \<open>\<open>df[c] = vs\<close>: an existing column keeps its place, a new one goes last.\<close>

definition setitem :: "'a frame \<Rightarrow> string \<Rightarrow> 'a list \<Rightarrow> 'a frame" where
  "setitem df c vs =
     (if c \<in> set (columns df)
      then map (\<lambda>(n, old). (n, if n = c then vs else old)) df
      else df @ [(c, vs)])"

text \<open>Arithmetic on columns; a missing operand gives a missing result.\<close>

definition scale :: "real option list \<Rightarrow> real \<Rightarrow> real option list" where
  "scale vs k = map (map_option (\<lambda>x. x * k)) vs"

definition times :: "real option list \<Rightarrow> real option list \<Rightarrow> real option list" where
  "times xs ys =
     map2 (\<lambda>x y. case (x, y) of (Some a, Some b) \<Rightarrow> Some (a * b) | _ \<Rightarrow> None) xs ys"

definition ensure_thrust_newton ::
  "real option frame \<Rightarrow> py_error + (real option frame \<times> string option)" where
  "ensure_thrust_newton df =
     (case pick_column df [''thrust_N'', ''thrust'', ''force_N''] of
        Some thrust_col \<Rightarrow>
          Inr (if thrust_col \<noteq> ''thrust_N'' then rename df [(thrust_col, ''thrust_N'')] else df,
               Some ''thrust_N'')
      | None \<Rightarrow>
     (case pick_column df [''thrust_g'', ''force_g''] of
        Some g_col \<Rightarrow>
          (case getitem df g_col of Inl e \<Rightarrow> Inl e | Inr g \<Rightarrow>
             Inr (setitem df ''thrust_N'' (scale g (980665 / 10 ^ 8)), Some ''thrust_N''))
      | None \<Rightarrow>
     (case pick_column df [''thrust_kgf'', ''force_kgf''] of
        Some kgf_col \<Rightarrow>
          (case getitem df kgf_col of Inl e \<Rightarrow> Inl e | Inr kgf \<Rightarrow>
             Inr (setitem df ''thrust_N'' (scale kgf (980665 / 10 ^ 5)), Some ''thrust_N''))
      | None \<Rightarrow> Inr (df, None))))"

definition add_power_if_possible :: "real option frame \<Rightarrow> py_error + real option frame" where
  "add_power_if_possible df =
     (let v = pick_column df [''voltage_V'', ''voltage'', ''V'', ''battery_V''];
          i = pick_column df [''current_A'', ''current'', ''I'']
      in case (v, i) of
           (Some vc, Some ic) \<Rightarrow>
             (case getitem df vc of Inl e \<Rightarrow> Inl e | Inr vv \<Rightarrow>
              case getitem df ic of Inl e \<Rightarrow> Inl e | Inr iv \<Rightarrow>
                Inr (setitem df ''power_W'' (times vv iv)))
         | _ \<Rightarrow> Inr df)"

text \<open>\<open>df[[c1, c2, ...]]\<close>: the named columns in the order asked for.\<close>

fun select :: "'a frame \<Rightarrow> string list \<Rightarrow> py_error + 'a frame" where
  "select df [] = Inr []"
| "select df (c # cs) =
     (case getitem df c of Inl e \<Rightarrow> Inl e | Inr vs \<Rightarrow>
      case select df cs of Inl e \<Rightarrow> Inl e | Inr rest \<Rightarrow> Inr ((c, vs) # rest))"

text \<open>
  \<open>dropna\<close> keeps the rows without a missing cell; what is left has none, so its
  cells are plain reals.
\<close>

definition row_at :: "'a frame \<Rightarrow> nat \<Rightarrow> 'a list" where
  "row_at df i = map (\<lambda>(c, vs). vs ! i) df"

definition rows :: "'a frame \<Rightarrow> 'a list list" where
  "rows df = map (row_at df) [0..<nrows df]"

definition from_rows :: "string list \<Rightarrow> 'a list list \<Rightarrow> 'a frame" where
  "from_rows names rs = map (\<lambda>j. (names ! j, map (\<lambda>r. r ! j) rs)) [0..<length names]"

fun all_some :: "'a option list \<Rightarrow> 'a list option" where
  "all_some [] = Some []"
| "all_some (None # xs) = None"
| "all_some (Some v # xs) = map_option ((#) v) (all_some xs)"

definition dropna :: "'a option frame \<Rightarrow> 'a frame" where
  "dropna df = from_rows (columns df) (List.map_filter all_some (rows df))"

text \<open>\<open>df.sort_values(key)\<close> reorders the rows by the library's sort of the key column.\<close>

definition sort_values ::
  "(real list \<Rightarrow> nat list) \<Rightarrow> string \<Rightarrow> real frame \<Rightarrow> py_error + real frame" where
  "sort_values asort key df =
     (case getitem df key of
        Inl e \<Rightarrow> Inl e
      | Inr ks \<Rightarrow> Inr (map (\<lambda>(c, vs). (c, map ((!) vs) (asort ks))) df))"

text \<open>
  The block of \<open>main\<close> that is written twice, for the throttle and for the rpm
  table: select the key and thrust columns, drop incomplete rows, average the
  thrust per key, sort by key, and give the columns their output names.
\<close>

definition thrust_by_key ::
  "(real list \<Rightarrow> nat list) \<Rightarrow> real option frame \<Rightarrow> string \<Rightarrow> string \<Rightarrow> string
   \<Rightarrow> py_error + real frame" where
  "thrust_by_key asort df key_col thrust_col out_key =
     (case select df [key_col, thrust_col] of Inl e \<Rightarrow> Inl e | Inr sub \<Rightarrow>
      case groupby_mean key_col (dropna sub) of Inl e \<Rightarrow> Inl e | Inr g \<Rightarrow>
      case sort_values asort key_col g of Inl e \<Rightarrow> Inl e | Inr s \<Rightarrow>
        Inr (rename s [(key_col, out_key), (thrust_col, ''thrust_N'')]))"

definition keep_cols ::
  "real option frame \<Rightarrow> string option \<Rightarrow> string option \<Rightarrow> string option \<Rightarrow> string list" where
  "keep_cols df throttle_col rpm_col thrust_col =
     List.map_filter id
       (filter (\<lambda>c. (case c of None \<Rightarrow> False | Some n \<Rightarrow> n \<in> set (columns df))
                    \<or> c \<in> set [thrust_col, throttle_col, rpm_col])
          [Some ''time_s'', throttle_col, rpm_col, thrust_col,
           Some ''voltage_V'', Some ''current_A'', Some ''power_W''])"

record thrust_map_args =
  tm_name :: string

definition thrust_map_main ::
  "(real list \<Rightarrow> nat list) \<Rightarrow> thrust_map_args \<Rightarrow> real option frame \<Rightarrow> run_result" where
  "thrust_map_main asort args df0 =
     (case ensure_thrust_newton df0 of
        Inl e \<Rightarrow> \<lparr>files = [], status = Raised e\<rparr>
      | Inr (df1, thrust_col) \<Rightarrow>
     (case add_power_if_possible df1 of
        Inl e \<Rightarrow> \<lparr>files = [], status = Raised e\<rparr>
      | Inr df \<Rightarrow>
          let throttle_col = pick_column df [''throttle_pct'', ''throttle_percent'', ''throttle''];
              rpm_col = pick_column df [''rpm'', ''motor_rpm'']
          in
     (case (case (throttle_col, thrust_col) of
              (Some k, Some t) \<Rightarrow>
                (case thrust_by_key asort df k t ''throttle_pct'' of
                   Inl e \<Rightarrow> Inl e
                 | Inr throttle \<Rightarrow>
                     Inr [(''thrustmap_throttle_'' @ tm_name args @ ''.csv'', to_csv throttle)])
            | _ \<Rightarrow> Inr []) of
        Inl e \<Rightarrow> \<lparr>files = [], status = Raised e\<rparr>
      | Inr out_throttle \<Rightarrow>
     (case (case (rpm_col, thrust_col) of
              (Some k, Some t) \<Rightarrow>
                (case thrust_by_key asort df k t ''rpm'' of
                   Inl e \<Rightarrow> Inl e
                 | Inr rpm \<Rightarrow>
                     Inr [(''thrustmap_rpm_'' @ tm_name args @ ''.csv'', to_csv rpm)])
            | _ \<Rightarrow> Inr []) of
        Inl e \<Rightarrow> \<lparr>files = out_throttle, status = Raised e\<rparr>
      | Inr out_rpm \<Rightarrow>
          let keep = keep_cols df throttle_col rpm_col thrust_col
          in
     (case (if keep \<noteq> []
            then (case select df keep of
                    Inl e \<Rightarrow> Inl e
                  | Inr clean \<Rightarrow> Inr [(''thrustmap_clean_'' @ tm_name args @ ''.csv'', clean)])
            else Inr []) of
        Inl e \<Rightarrow> \<lparr>files = out_throttle @ out_rpm, status = Raised e\<rparr>
      | Inr out_clean \<Rightarrow>
          let written = out_throttle @ out_rpm @ out_clean
          in \<lparr>files = written,
              status = (if written = [] then Exited 1 else Completed)\<rparr>)))))"

section \<open>process\_efficiency.py\<close>

text \<open>Lines 30 and 31 of \<open>main\<close>: the power column, when voltage and current are there.\<close>

definition derive_power :: "real option frame \<Rightarrow> py_error + real option frame" where
  "derive_power df =
     (if set [''voltage_V'', ''current_A''] \<subseteq> set (columns df)
      then (case getitem df ''voltage_V'' of Inl e \<Rightarrow> Inl e | Inr vv \<Rightarrow>
            case getitem df ''current_A'' of Inl e \<Rightarrow> Inl e | Inr iv \<Rightarrow>
              Inr (setitem df ''power_W'' (times vv iv)))
      else Inr df)"

definition present :: "'a option list \<Rightarrow> 'a list" where
  "present vs = List.map_filter id vs"

text \<open>
  \<open>Series.quantile(q)\<close>: linear interpolation between the order statistics of
  the values that are not missing; \<open>None\<close> (NaN) when there is none.
\<close>

definition quantile :: "real option list \<Rightarrow> real \<Rightarrow> real option" where
  "quantile vs q =
     (let xs = sort (present vs); n = length xs
      in if n = 0 then None
         else let h = real (n - 1) * q; lo = nat \<lfloor>h\<rfloor>; hi = nat \<lceil>h\<rceil>
              in Some (xs ! lo + (h - real lo) * (xs ! hi - xs ! lo)))"

text \<open>
  \<open>pd.cut(x, bins=edges, include_lowest=True)\<close>: intervals closed on the right,
  the first one closed on the left as well. Edges that do not increase, or that
  repeat (unless there are just two of them), are a \<open>ValueError\<close>; no edge at all
  is an \<open>IndexError\<close>. A value outside every interval, or a missing one, gets no bin.
\<close>

definition bin_of :: "real list \<Rightarrow> real \<Rightarrow> nat option" where
  "bin_of edges v =
     (let ids = (if v = hd edges then 1 else length (filter (\<lambda>e. e < v) edges))
      in if ids = 0 \<or> ids = length edges then None else Some (ids - 1))"

definition cut :: "real option list \<Rightarrow> real list \<Rightarrow> py_error + nat option list" where
  "cut xs edges =
     (if \<not> sorted edges then Inl ValueError
      else if \<not> distinct edges \<and> length edges \<noteq> 2 then Inl ValueError
      else if edges = [] then Inl IndexError
      else Inr (map (\<lambda>x. case x of None \<Rightarrow> None | Some v \<Rightarrow> bin_of edges v) xs))"

text \<open>
  \<open>df.groupby("speed_bin").agg(mean)\<close>: one row per bin, each column averaged over
  the values of the bin that are not missing; a bin without such a value gets a
  missing mean.
\<close>

definition in_bin :: "nat option list \<Rightarrow> nat \<Rightarrow> 'a list \<Rightarrow> 'a list" where
  "in_bin bs b vs = map snd (filter (\<lambda>p. fst p = Some b) (zip bs vs))"

definition mean_skipna :: "real option list \<Rightarrow> real option" where
  "mean_skipna vs = (if present vs = [] then None else Some (mean (present vs)))"

definition groupby_bin_mean ::
  "nat \<Rightarrow> nat option list \<Rightarrow> real option frame \<Rightarrow> real option frame" where
  "groupby_bin_mean nbins bs df =
     map (\<lambda>(c, vs). (c, map (\<lambda>b. mean_skipna (in_bin bs b vs)) [0..<nbins])) df"

text \<open>
  \<open>energy_per_km\<close>: numpy divides without raising; a division by zero gives a
  value that is not finite, written \<open>None\<close>.
\<close>

definition energy_per_km :: "real list \<Rightarrow> real list \<Rightarrow> real option list" where
  "energy_per_km power_W speed_mps =
     map2 (\<lambda>p v. if v = 0 then None else Some ((p / v) * (1000 / 3600))) power_W speed_mps"

record efficiency_args =
  ef_name :: string
  ef_bins :: int

definition agg_columns :: "'a frame \<Rightarrow> string list" where
  "agg_columns df =
     [''speed_mps''] @ (if ''power_W'' \<in> set (columns df) then [''power_W''] else [])
                     @ (if ''thrust_sum_N'' \<in> set (columns df) then [''thrust_sum_N''] else [])"

text \<open>
  When the speed column has no value, the quantiles are NaN and so are the bin
  edges, which \<open>pd.cut\<close> rejects as not increasing.
\<close>

definition efficiency_main :: "efficiency_args \<Rightarrow> real option frame \<Rightarrow> run_result" where
  "efficiency_main args df0 =
     (case derive_power df0 of
        Inl e \<Rightarrow> \<lparr>files = [], status = Raised e\<rparr>
      | Inr df \<Rightarrow>
          if ''speed_mps'' \<notin> set (columns df)
             \<or> (''power_W'' \<notin> set (columns df) \<and> ''thrust_sum_N'' \<notin> set (columns df))
          then \<lparr>files = [], status = Raised ValueError\<rparr>
          else
     (case getitem df ''speed_mps'' of
        Inl e \<Rightarrow> \<lparr>files = [], status = Raised e\<rparr>
      | Inr speed \<Rightarrow>
     (case (quantile speed (5 / 100), quantile speed (95 / 100)) of
        (Some smin, Some smax) \<Rightarrow>
     (case linspace smin smax (ef_bins args + 1) of
        Inl e \<Rightarrow> \<lparr>files = [], status = Raised e\<rparr>
      | Inr bins \<Rightarrow>
     (case cut speed bins of
        Inl e \<Rightarrow> \<lparr>files = [], status = Raised e\<rparr>
      | Inr speed_bin \<Rightarrow>
     (case select df (agg_columns df) of
        Inl e \<Rightarrow> \<lparr>files = [], status = Raised e\<rparr>
      | Inr sel \<Rightarrow>
          let g = dropna (groupby_bin_mean (length bins - 1) speed_bin sel)
          in
     (case (if ''power_W'' \<in> set (columns g)
            then (case getitem g ''power_W'' of Inl e \<Rightarrow> Inl e | Inr p \<Rightarrow>
                  case getitem g ''speed_mps'' of Inl e \<Rightarrow> Inl e | Inr v \<Rightarrow>
                    Inr (to_csv g @ [(''energy_Wh_per_km'', energy_per_km p v)]))
            else Inr (to_csv g)) of
        Inl e \<Rightarrow> \<lparr>files = [], status = Raised e\<rparr>
      | Inr out \<Rightarrow>
          \<lparr>files = [(''efficiency_'' @ ef_name args @ ''.csv'', out)],
           status = Completed\<rparr>))))
      | _ \<Rightarrow> \<lparr>files = [], status = Raised ValueError\<rparr>)))"

subsection \<open>The bins as the specification words them\<close>



section \<open>Properties\<close>

subsection \<open>Flattening a rectangular grid\<close>

lemma length_concat_rect:
  "\<forall>r \<in> set xss. length r = n \<Longrightarrow> length (concat xss) = length xss * n"
  by (induction xss) auto

lemma nth_concat_rect:
  "\<forall>r \<in> set xss. length r = n \<Longrightarrow> i < length xss \<Longrightarrow> j < n \<Longrightarrow>
   concat xss ! (i * n + j) = xss ! i ! j"
proof (induction xss arbitrary: i)
  case Nil
  then show ?case by simp
next
  case (Cons r xss)
  show ?case
  proof (cases i)
    case 0
    with Cons.prems show ?thesis by (simp add: nth_append)
  next
    case (Suc k)
    with Cons.prems have "concat xss ! (k * n + j) = xss ! k ! j"
      by (intro Cons.IH) auto
    with Suc Cons.prems show ?thesis by (simp add: nth_append add.assoc)
  qed
qed

text \<open>
  C2. For an N-by-N grid \<open>Z\<close> with axes \<open>voltages\<close> and \<open>forces\<close> of length N (N at
  least 1), \<open>melt_grid\<close> returns a table with the columns voltage\_V, force\_N, cmd
  in this order and exactly N*N rows; the row at position \<open>i*N + j\<close> holds
  \<open>voltages[i]\<close>, \<open>forces[j]\<close> and \<open>Z[i][j]\<close>.
\<close>

theorem melt_grid_long_form:
  assumes "1 \<le> N" "length voltages = N" "length forces = N"
    and "length Z = N" "\<forall>r \<in> set Z. length r = N"
  shows "\<exists>vc fc zc.
           melt_grid voltages forces Z =
             Inr [(''voltage_V'', vc), (''force_N'', fc), (''cmd'', zc)]
         \<and> length vc = N * N \<and> length fc = N * N \<and> length zc = N * N
         \<and> (\<forall>i < N. \<forall>j < N.
               vc ! (i * N + j) = voltages ! i
             \<and> fc ! (i * N + j) = forces ! j
             \<and> zc ! (i * N + j) = Z ! i ! j)"
proof -
  let ?V = "map (\<lambda>v. replicate (length forces) v) voltages"
  let ?F = "map (\<lambda>_. forces) voltages"
  have rV: "\<forall>r \<in> set ?V. length r = N" using assms by auto
  have rF: "\<forall>r \<in> set ?F. length r = N" using assms by auto
  have lV: "length (concat ?V) = N * N"
    using length_concat_rect [OF rV] assms by simp
  have lF: "length (concat ?F) = N * N"
    using length_concat_rect [OF rF] assms by simp
  have lZ: "length (concat Z) = N * N"
    using length_concat_rect [OF assms(5)] assms by simp
  have eq: "melt_grid voltages forces Z =
      Inr [(''voltage_V'', concat ?V), (''force_N'', concat ?F), (''cmd'', concat Z)]"
    by (simp add: melt_grid_def meshgrid_ij_def ravel_def DataFrame_def lV lF lZ)
  have cells: "concat ?V ! (i * N + j) = voltages ! i
             \<and> concat ?F ! (i * N + j) = forces ! j
             \<and> concat Z ! (i * N + j) = Z ! i ! j" if "i < N" "j < N" for i j
  proof -
    have "concat ?V ! (i * N + j) = ?V ! i ! j"
      using that assms by (intro nth_concat_rect [OF rV]) auto
    moreover have "concat ?F ! (i * N + j) = ?F ! i ! j"
      using that assms by (intro nth_concat_rect [OF rF]) auto
    moreover have "concat Z ! (i * N + j) = Z ! i ! j"
      using that assms by (intro nth_concat_rect [OF assms(5)]) auto
    ultimately show ?thesis using that assms by simp
  qed
  show ?thesis using eq lV lF lZ cells by blast
qed

theorem melt_grid_long_form_witness:
  "melt_grid [1, 2] [3, 4] [[5, 6], [7, 8]] =
     Inr [(''voltage_V'', [1, 1, 2, 2]), (''force_N'', [3, 4, 3, 4]), (''cmd'', [5, 6, 7, 8])]"
  using melt_grid_long_form [of 2 "[1, 2]" "[3, 4]" "[[5, 6], [7, 8]]"]
  by (simp add: melt_grid_def meshgrid_ij_def ravel_def DataFrame_def)

subsection \<open>Inverting the lookup curve\<close>

lemma valid_stable_argsort: "valid_argsort stable_argsort"
proof -
  have "mset (stable_argsort xs) = mset [0..<length xs]" for xs :: "real list"
  proof -
    have "mset (stable_argsort xs) = mset (map snd (zip xs [0..<length xs]))"
      unfolding stable_argsort_def mset_map mset_sort ..
    also have "map snd (zip xs [0..<length xs]) = [0..<length xs]"
      by (rule map_snd_zip) simp
    finally show ?thesis .
  qed
  moreover have "sorted (map ((!) xs) (stable_argsort xs))" for xs :: "real list"
  proof -
    let ?ps = "sort_key fst (zip xs [0..<length xs])"
    have e: "map ((!) xs) (map snd ?ps) = map fst ?ps"
      by (auto simp: set_zip)
    show ?thesis unfolding stable_argsort_def e by (rule sorted_sort_key)
  qed
  ultimately show ?thesis by (simp add: valid_argsort_def)
qed

lemma valid_argsort_set:
  "valid_argsort asort \<Longrightarrow> set (asort xs) = {0..<length xs}"
  by (metis valid_argsort_def set_mset_mset set_upt)

lemma valid_argsort_length:
  "valid_argsort asort \<Longrightarrow> length (asort xs) = length xs"
  by (metis valid_argsort_def size_mset length_upt diff_zero)

lemma mset_zip_reorder:
  assumes "valid_argsort asort" "length cmd \<le> length force"
  shows "mset (zip (map ((!) cmd) (asort cmd)) (map ((!) force) (asort cmd)))
         = mset (zip cmd force)"
proof -
  let ?f = "\<lambda>i. (cmd ! i, force ! i)"
  have "zip (map ((!) cmd) (asort cmd)) (map ((!) force) (asort cmd)) = map ?f (asort cmd)"
    by (simp add: zip_map_map zip_same_conv_map)
  moreover have "mset (map ?f (asort cmd)) = mset (map ?f [0..<length cmd])"
    using assms(1) unfolding valid_argsort_def by (metis mset_map)
  moreover have "map ?f [0..<length cmd] = zip cmd force"
    using assms(2) by (intro nth_equalityI) auto
  ultimately show ?thesis by simp
qed

lemma group_vals_mset:
  "mset (zip ks vs) = mset (zip ks' vs') \<Longrightarrow>
   mset (group_vals ks vs k) = mset (group_vals ks' vs' k)"
  unfolding group_vals_def by (metis mset_filter mset_map)

lemma mean_mset: "mset xs = mset ys \<Longrightarrow> mean xs = mean ys"
  unfolding mean_def by (metis mset_eq_length sum_mset_sum_list)

lemma invert_canonical:
  assumes "valid_argsort asort" "length cmd \<le> length force"
  shows "invert_cmd_vs_force_to_force_vs_cmd asort cmd force =
         Inr (sort (remdups cmd),
              map (\<lambda>k. mean (group_vals cmd force k)) (sort (remdups cmd)))"
proof -
  let ?order = "asort cmd"
  let ?cs = "map ((!) cmd) ?order" and ?fs = "map ((!) force) ?order"
  have so: "set ?order = {0..<length cmd}"
    by (rule valid_argsort_set [OF assms(1)])
  have fc: "fancy_index cmd ?order = Inr ?cs"
    using so by (simp add: fancy_index_def)
  have ff: "fancy_index force ?order = Inr ?fs"
    using so assms(2) by (simp add: fancy_index_def)
  have df: "DataFrame [(''cmd'', ?cs), (''thrust_N'', ?fs)]
            = Inr [(''cmd'', ?cs), (''thrust_N'', ?fs)]"
    by (simp add: DataFrame_def)
  have "set ?cs = (!) cmd ` {0..<length cmd}"
    using so by simp
  also have "\<dots> = set cmd"
    by (metis map_nth set_map set_upt)
  finally have keys: "sort (remdups ?cs) = sort (remdups cmd)"
    by (metis sorted_list_of_set_sort_remdups)
  have means: "mean (group_vals ?cs ?fs k) = mean (group_vals cmd force k)" for k
    by (intro mean_mset group_vals_mset mset_zip_reorder assms)
  have g: "groupby_mean ''cmd'' [(''cmd'', ?cs), (''thrust_N'', ?fs)] =
        Inr [(''cmd'', sort (remdups cmd)),
             (''thrust_N'', map (\<lambda>k. mean (group_vals cmd force k)) (sort (remdups cmd)))]"
    by (simp add: groupby_mean_def keys means Let_def)
  show ?thesis
    by (simp add: invert_cmd_vs_force_to_force_vs_cmd_def fc ff df g getitem_def)
qed

lemma invert_short:
  assumes "valid_argsort asort" "length force < length cmd"
  shows "invert_cmd_vs_force_to_force_vs_cmd asort cmd force = Inl IndexError"
proof -
  let ?order = "asort cmd"
  have so: "set ?order = {0..<length cmd}"
    by (rule valid_argsort_set [OF assms(1)])
  have fc: "fancy_index cmd ?order = Inr (map ((!) cmd) ?order)"
    using so by (simp add: fancy_index_def)
  have "length force \<in> set ?order" using so assms(2) by simp
  then have ff: "fancy_index force ?order = Inl IndexError"
    by (auto simp: fancy_index_def)
  show ?thesis
    by (simp add: invert_cmd_vs_force_to_force_vs_cmd_def fc ff)
qed

lemma group_vals_index:
  assumes "length ks \<le> length vs"
  shows "group_vals ks vs k = map ((!) vs) (filter (\<lambda>i. ks ! i = k) [0..<length ks])"
proof -
  have "zip ks vs = map (\<lambda>i. (ks ! i, vs ! i)) [0..<length ks]"
    using assms by (intro nth_equalityI) auto
  then show ?thesis
    by (simp add: group_vals_def filter_map comp_def)
qed

lemma sum_list_group_vals:
  fixes vs :: "real list"
  assumes "length ks \<le> length vs"
  shows "sum_list (group_vals ks vs k) = (\<Sum>i \<in> {i. i < length ks \<and> ks ! i = k}. vs ! i)"
proof -
  let ?is = "filter (\<lambda>i. ks ! i = k) [0..<length ks]"
  have "sum_list (map ((!) vs) ?is) = sum ((!) vs) (set ?is)"
    by (rule sum_list_distinct_conv_sum_set) simp
  moreover have "set ?is = {i. i < length ks \<and> ks ! i = k}" by auto
  ultimately show ?thesis by (simp add: group_vals_index [OF assms])
qed

lemma length_group_vals:
  assumes "length ks \<le> length vs"
  shows "length (group_vals ks vs k) = card {i. i < length ks \<and> ks ! i = k}"
proof -
  let ?is = "filter (\<lambda>i. ks ! i = k) [0..<length ks]"
  have "card (set ?is) = length ?is" by (rule distinct_card) simp
  moreover have "set ?is = {i. i < length ks \<and> ks ! i = k}" by auto
  ultimately show ?thesis by (simp add: group_vals_index [OF assms])
qed

lemma sorted_wrt_less_sort_remdups: "sorted_wrt (<) (sort (remdups (xs :: real list)))"
  by (simp add: strict_sorted_iff)

text \<open>
  C1. For arrays \<open>cmd\<close> and \<open>force\<close> of one length,
  \<open>invert_cmd_vs_force_to_force_vs_cmd\<close> returns two arrays of one length:
  \<open>cmd_out\<close> lists exactly the distinct values of \<open>cmd\<close> in strictly increasing
  order, and \<open>thrust_out[k]\<close> is the arithmetic mean of \<open>force[i]\<close> over all indices
  \<open>i\<close> with \<open>cmd[i] = cmd_out[k]\<close>. This holds for every sorting routine that meets
  the contract of \<open>np.argsort\<close>.
\<close>

theorem invert_sorted_unique_mean:
  assumes "valid_argsort asort" "length cmd = length force"
  shows "\<exists>cmd_out thrust_out.
           invert_cmd_vs_force_to_force_vs_cmd asort cmd force = Inr (cmd_out, thrust_out)
         \<and> length thrust_out = length cmd_out
         \<and> set cmd_out = set cmd \<and> sorted_wrt (<) cmd_out
         \<and> (\<forall>k < length cmd_out.
               thrust_out ! k =
                 (\<Sum>i \<in> {i. i < length cmd \<and> cmd ! i = cmd_out ! k}. force ! i)
                 / real (card {i. i < length cmd \<and> cmd ! i = cmd_out ! k}))"
proof -
  let ?ks = "sort (remdups cmd)"
  let ?ts = "map (\<lambda>k. mean (group_vals cmd force k)) ?ks"
  have le: "length cmd \<le> length force" using assms(2) by simp
  have "invert_cmd_vs_force_to_force_vs_cmd asort cmd force = Inr (?ks, ?ts)"
    by (rule invert_canonical [OF assms(1) le])
  moreover have "length ?ts = length ?ks" by simp
  moreover have "set ?ks = set cmd" by simp
  moreover have "sorted_wrt (<) ?ks" by (rule sorted_wrt_less_sort_remdups)
  moreover have "?ts ! k =
      (\<Sum>i \<in> {i. i < length cmd \<and> cmd ! i = ?ks ! k}. force ! i)
      / real (card {i. i < length cmd \<and> cmd ! i = ?ks ! k})" if "k < length ?ks" for k
    using that
    by (simp add: mean_def sum_list_group_vals [OF le] length_group_vals [OF le])
  ultimately show ?thesis by blast
qed

theorem invert_sorted_unique_mean_witness:
  "invert_cmd_vs_force_to_force_vs_cmd stable_argsort [2, 1, 2] [10, 20, 30]
     = Inr ([1, 2], [20, 20])"
proof -
  obtain cmd_out thrust_out where
    r: "invert_cmd_vs_force_to_force_vs_cmd stable_argsort [2, 1, 2] [10, 20, 30]
        = Inr (cmd_out, thrust_out)"
    using invert_sorted_unique_mean [OF valid_stable_argsort, of "[2, 1, 2]" "[10, 20, 30]"]
    by auto
  have "invert_cmd_vs_force_to_force_vs_cmd stable_argsort [2, 1, 2] [10, 20, 30]
        = Inr ([1, 2], [20, 20])"
    by (simp add: invert_cmd_vs_force_to_force_vs_cmd_def stable_argsort_def fancy_index_def
        DataFrame_def groupby_mean_def getitem_def mean_def group_vals_def)
  with r show ?thesis by simp
qed

subsection \<open>Throttle normalisation\<close>

lemma percent_bounds: "0 \<le> t \<Longrightarrow> t \<le> 1 \<Longrightarrow> 0 \<le> t * 100 \<and> t * 100 \<le> (100::real)"
  by simp

text \<open>
  C9. The divisor \<open>span = max(cmax - cmin, 1e-9)\<close> of the throttle normalisation
  is at least 1e-9 for all \<open>cmin\<close> and \<open>cmax\<close>, hence never zero, whether the values
  of the slice are all equal or \<open>--min-cmd\<close> equals \<open>--max-cmd\<close>. With both options
  left at their defaults and \<open>cmax - cmin\<close> at least 1e-9, every throttle
  percentage lies between 0 and 100.
\<close>

theorem throttle_span_positive:
  "1 / 10 ^ 9 \<le> throttle_span cmin cmax \<and> throttle_span cmin cmax \<noteq> 0
   \<and> (cmd_1d \<noteq> [] \<longrightarrow> (\<exists>pct. throttle_percent cmd_1d None None = Inr pct))
   \<and> (throttle_percent cmd_1d None None = Inr pct
        \<longrightarrow> 1 / 10 ^ 9 \<le> Max (set cmd_1d) - Min (set cmd_1d)
        \<longrightarrow> (\<forall>p \<in> set pct. 0 \<le> p \<and> p \<le> 100))"
proof -
  have lb: "1 / 10 ^ 9 \<le> throttle_span cmin cmax"
    by (simp add: throttle_span_def)
  have pos: "(0::real) < 1 / 10 ^ 9" by simp
  have nz: "throttle_span cmin cmax \<noteq> 0"
    using lb pos by linarith
  have ret: "\<exists>pct. throttle_percent cmd_1d None None = Inr pct" if "cmd_1d \<noteq> []"
    using that by (simp add: throttle_percent_def np_min_def np_max_def)
  have rng: "\<forall>p \<in> set pct. 0 \<le> p \<and> p \<le> 100"
    if r: "throttle_percent cmd_1d None None = Inr pct"
      and w: "1 / 10 ^ 9 \<le> Max (set cmd_1d) - Min (set cmd_1d)"
  proof -
    let ?lo = "Min (set cmd_1d)" and ?hi = "Max (set cmd_1d)"
    have ne: "cmd_1d \<noteq> []"
      using r by (auto simp: throttle_percent_def np_min_def split: if_splits)
    have span: "throttle_span ?lo ?hi = ?hi - ?lo"
      using w by (simp add: throttle_span_def max_def)
    have sp: "0 < ?hi - ?lo" using w pos by linarith
    have pct: "pct = map (\<lambda>c. (c - ?lo) / (?hi - ?lo) * 100) cmd_1d"
      using r ne by (simp add: throttle_percent_def np_min_def np_max_def span)
    have "0 \<le> (c - ?lo) / (?hi - ?lo) * 100 \<and> (c - ?lo) / (?hi - ?lo) * 100 \<le> 100"
      if "c \<in> set cmd_1d" for c
    proof -
      have "?lo \<le> c" "c \<le> ?hi" using that by simp_all
      then have "0 \<le> (c - ?lo) / (?hi - ?lo)" "(c - ?lo) / (?hi - ?lo) \<le> 1"
        using sp by (simp_all add: divide_simps)
      then show ?thesis by (rule percent_bounds)
    qed
    then show ?thesis by (auto simp: pct)
  qed
  show ?thesis using lb nz ret rng by blast
qed

theorem throttle_span_positive_witness:
  "throttle_span 1 3 = 2 \<and> throttle_percent [1, 3] None None = Inr [0, 100]
   \<and> throttle_span 5 5 = 1 / 10 ^ 9 \<and> throttle_percent [5, 5] None None = Inr [0, 0]"
  using throttle_span_positive [of 1 3 "[1, 3]" "[0, 100]"]
  by (simp add: throttle_span_def throttle_percent_def np_min_def np_max_def)

subsection \<open>Column derivations\<close>


lemma map_of_setitem_other: "c' \<noteq> c \<Longrightarrow> map_of (setitem df c vs) c' = map_of df c'"
proof -
  assume ne: "c' \<noteq> c"
  have "map_of (map (\<lambda>(n, old). (n, if n = c then vs else old)) d) c' = map_of d c'"
    for d :: "'a frame"
    using ne by (induction d) auto
  with ne show ?thesis by (auto simp: setitem_def map_add_def split: option.splits)
qed

lemma wf_frame_length: "wf_frame df \<Longrightarrow> map_of df c = Some vs \<Longrightarrow> length vs = nrows df"
  by (auto simp: wf_frame_def dest!: map_of_SomeD)

lemma getitem_Some: "map_of df c = Some vs \<Longrightarrow> getitem df c = Inr vs"
  by (simp add: getitem_def)

lemma in_columns_map_of: "c \<in> set (columns df) \<longleftrightarrow> (\<exists>vs. map_of df c = Some vs)"
  by (metis columns_def map_of_eq_None_iff not_Some_eq set_map)

lemma length_times: "length (times xs ys) = min (length xs) (length ys)"
  by (simp add: times_def)


lemma pick_column_Some:
  "pick_column df as = Some a \<Longrightarrow> a \<in> set as \<and> a \<in> set (columns df)"
  unfolding pick_column_def by (metis find_Some_iff nth_mem)




text \<open>
  C4. \<open>ensure_thrust_newton\<close> normalises thrust to Newtons. If the table has a
  column thrust\_N, thrust or force\_N, the first of these (in this order) is
  renamed to thrust\_N, values unchanged; otherwise, with thrust\_g or force\_g, a
  thrust\_N column is added, that column times 9.80665e-3; otherwise, with
  thrust\_kgf or force\_kgf, thrust\_N is that column times 9.80665; otherwise
  the table is returned unchanged and no thrust column is reported. In the
  first three cases the reported column is thrust\_N.
\<close>

theorem ensure_thrust_newton_normalises:
  "(''thrust_N'' \<in> set (columns df) \<longrightarrow>
      ensure_thrust_newton df = Inr (df, Some ''thrust_N''))
 \<and> (''thrust_N'' \<notin> set (columns df) \<and> ''thrust'' \<in> set (columns df) \<longrightarrow>
      ensure_thrust_newton df =
        Inr (map (\<lambda>(c, vs). (if c = ''thrust'' then ''thrust_N'' else c, vs)) df,
             Some ''thrust_N''))
 \<and> (''thrust_N'' \<notin> set (columns df) \<and> ''thrust'' \<notin> set (columns df)
      \<and> ''force_N'' \<in> set (columns df) \<longrightarrow>
      ensure_thrust_newton df =
        Inr (map (\<lambda>(c, vs). (if c = ''force_N'' then ''thrust_N'' else c, vs)) df,
             Some ''thrust_N''))
 \<and> ((\<forall>c \<in> set [''thrust_N'', ''thrust'', ''force_N'']. c \<notin> set (columns df))
      \<and> map_of df ''thrust_g'' = Some g \<longrightarrow>
      ensure_thrust_newton df =
        Inr (df @ [(''thrust_N'', map (map_option (\<lambda>x. x * (980665 / 10 ^ 8))) g)],
             Some ''thrust_N''))
 \<and> ((\<forall>c \<in> set [''thrust_N'', ''thrust'', ''force_N'', ''thrust_g'']. c \<notin> set (columns df))
      \<and> map_of df ''force_g'' = Some g \<longrightarrow>
      ensure_thrust_newton df =
        Inr (df @ [(''thrust_N'', map (map_option (\<lambda>x. x * (980665 / 10 ^ 8))) g)],
             Some ''thrust_N''))
 \<and> ((\<forall>c \<in> set [''thrust_N'', ''thrust'', ''force_N'', ''thrust_g'', ''force_g''].
         c \<notin> set (columns df))
      \<and> map_of df ''thrust_kgf'' = Some k \<longrightarrow>
      ensure_thrust_newton df =
        Inr (df @ [(''thrust_N'', map (map_option (\<lambda>x. x * (980665 / 10 ^ 5))) k)],
             Some ''thrust_N''))
 \<and> ((\<forall>c \<in> set [''thrust_N'', ''thrust'', ''force_N'', ''thrust_g'', ''force_g'',
                  ''thrust_kgf'']. c \<notin> set (columns df))
      \<and> map_of df ''force_kgf'' = Some k \<longrightarrow>
      ensure_thrust_newton df =
        Inr (df @ [(''thrust_N'', map (map_option (\<lambda>x. x * (980665 / 10 ^ 5))) k)],
             Some ''thrust_N''))
 \<and> ((\<forall>c \<in> set [''thrust_N'', ''thrust'', ''force_N'', ''thrust_g'', ''force_g'',
                  ''thrust_kgf'', ''force_kgf'']. c \<notin> set (columns df)) \<longrightarrow>
      ensure_thrust_newton df = Inr (df, None))"
proof -
  have ren: "rename df [(old, ''thrust_N'')] =
      map (\<lambda>(c, vs). (if c = old then ''thrust_N'' else c, vs)) df" for old
    by (auto simp: rename_def)
  have col: "c \<in> set (columns df)" if "map_of df c = Some vs" for c vs
    using that by (auto simp: in_columns_map_of)
  have 1: "''thrust_N'' \<in> set (columns df) \<Longrightarrow>
      ensure_thrust_newton df = Inr (df, Some ''thrust_N'')"
    by (simp add: ensure_thrust_newton_def pick_column_def)
  have 2: "''thrust_N'' \<notin> set (columns df) \<and> ''thrust'' \<in> set (columns df) \<Longrightarrow>
      ensure_thrust_newton df =
        Inr (map (\<lambda>(c, vs). (if c = ''thrust'' then ''thrust_N'' else c, vs)) df,
             Some ''thrust_N'')"
    by (simp add: ensure_thrust_newton_def pick_column_def ren)
  have 3: "''thrust_N'' \<notin> set (columns df) \<and> ''thrust'' \<notin> set (columns df)
      \<and> ''force_N'' \<in> set (columns df) \<Longrightarrow>
      ensure_thrust_newton df =
        Inr (map (\<lambda>(c, vs). (if c = ''force_N'' then ''thrust_N'' else c, vs)) df,
             Some ''thrust_N'')"
    by (simp add: ensure_thrust_newton_def pick_column_def ren)
  have 4: "(\<forall>c \<in> set [''thrust_N'', ''thrust'', ''force_N'']. c \<notin> set (columns df))
      \<and> map_of df ''thrust_g'' = Some g \<Longrightarrow>
      ensure_thrust_newton df =
        Inr (df @ [(''thrust_N'', map (map_option (\<lambda>x. x * (980665 / 10 ^ 8))) g)],
             Some ''thrust_N'')"
    using col [of "''thrust_g''" g]
    by (simp add: ensure_thrust_newton_def pick_column_def getitem_def setitem_def scale_def)
  have 5: "(\<forall>c \<in> set [''thrust_N'', ''thrust'', ''force_N'', ''thrust_g'']. c \<notin> set (columns df))
      \<and> map_of df ''force_g'' = Some g \<Longrightarrow>
      ensure_thrust_newton df =
        Inr (df @ [(''thrust_N'', map (map_option (\<lambda>x. x * (980665 / 10 ^ 8))) g)],
             Some ''thrust_N'')"
    using col [of "''force_g''" g]
    by (simp add: ensure_thrust_newton_def pick_column_def getitem_def setitem_def scale_def)
  have 6: "(\<forall>c \<in> set [''thrust_N'', ''thrust'', ''force_N'', ''thrust_g'', ''force_g''].
         c \<notin> set (columns df))
      \<and> map_of df ''thrust_kgf'' = Some k \<Longrightarrow>
      ensure_thrust_newton df =
        Inr (df @ [(''thrust_N'', map (map_option (\<lambda>x. x * (980665 / 10 ^ 5))) k)],
             Some ''thrust_N'')"
    using col [of "''thrust_kgf''" k]
    by (simp add: ensure_thrust_newton_def pick_column_def getitem_def setitem_def scale_def)
  have 7: "(\<forall>c \<in> set [''thrust_N'', ''thrust'', ''force_N'', ''thrust_g'', ''force_g'',
                  ''thrust_kgf'']. c \<notin> set (columns df))
      \<and> map_of df ''force_kgf'' = Some k \<Longrightarrow>
      ensure_thrust_newton df =
        Inr (df @ [(''thrust_N'', map (map_option (\<lambda>x. x * (980665 / 10 ^ 5))) k)],
             Some ''thrust_N'')"
    using col [of "''force_kgf''" k]
    by (simp add: ensure_thrust_newton_def pick_column_def getitem_def setitem_def scale_def)
  have 8: "(\<forall>c \<in> set [''thrust_N'', ''thrust'', ''force_N'', ''thrust_g'', ''force_g'',
                  ''thrust_kgf'', ''force_kgf'']. c \<notin> set (columns df)) \<Longrightarrow>
      ensure_thrust_newton df = Inr (df, None)"
    by (simp add: ensure_thrust_newton_def pick_column_def)
  show ?thesis using 1 2 3 4 5 6 7 8 by blast
qed

theorem ensure_thrust_newton_normalises_witness:
  "ensure_thrust_newton [(''t'', [Some 0]), (''thrust_N'', [Some 3]), (''thrust'', [Some 4])] =
     Inr ([(''t'', [Some 0]), (''thrust_N'', [Some 3]), (''thrust'', [Some 4])], Some ''thrust_N'')
   \<and> ensure_thrust_newton [(''thrust'', [Some 4]), (''force_N'', [Some 5])] =
     Inr ([(''thrust_N'', [Some 4]), (''force_N'', [Some 5])], Some ''thrust_N'')
   \<and> ensure_thrust_newton [(''force_N'', [Some 2]), (''thrust_g'', [Some 1000])] =
     Inr ([(''thrust_N'', [Some 2]), (''thrust_g'', [Some 1000])], Some ''thrust_N'')
   \<and> ensure_thrust_newton [(''t'', [Some 0, Some 1]), (''thrust_g'', [Some 1000, None])] =
     Inr ([(''t'', [Some 0, Some 1]), (''thrust_g'', [Some 1000, None]),
           (''thrust_N'', [Some (980665 / 100000), None])], Some ''thrust_N'')
   \<and> ensure_thrust_newton [(''force_g'', [Some 2000]), (''thrust_kgf'', [Some 1])] =
     Inr ([(''force_g'', [Some 2000]), (''thrust_kgf'', [Some 1]),
           (''thrust_N'', [Some (980665 / 50000)])], Some ''thrust_N'')
   \<and> ensure_thrust_newton [(''thrust_kgf'', [Some 1]), (''force_kgf'', [Some 3])] =
     Inr ([(''thrust_kgf'', [Some 1]), (''force_kgf'', [Some 3]),
           (''thrust_N'', [Some (980665 / 100000)])], Some ''thrust_N'')
   \<and> ensure_thrust_newton [(''force_kgf'', [Some 2])] =
     Inr ([(''force_kgf'', [Some 2]), (''thrust_N'', [Some (980665 / 50000)])], Some ''thrust_N'')
   \<and> ensure_thrust_newton [(''rpm'', [Some 2])] = Inr ([(''rpm'', [Some 2])], None)"
  using ensure_thrust_newton_normalises
          [of "[(''t'', [Some 0]), (''thrust_N'', [Some 3]), (''thrust'', [Some 4])]"]
        ensure_thrust_newton_normalises [of "[(''thrust'', [Some 4]), (''force_N'', [Some 5])]"]
        ensure_thrust_newton_normalises [of "[(''force_N'', [Some 2]), (''thrust_g'', [Some 1000])]"]
        ensure_thrust_newton_normalises
          [of "[(''t'', [Some 0, Some 1]), (''thrust_g'', [Some 1000, None])]"
              "[Some 1000, None]"]
        ensure_thrust_newton_normalises
          [of "[(''force_g'', [Some 2000]), (''thrust_kgf'', [Some 1])]" "[Some 2000]"]
        ensure_thrust_newton_normalises
          [of "[(''thrust_kgf'', [Some 1]), (''force_kgf'', [Some 3])]" _ "[Some 1]"]
        ensure_thrust_newton_normalises [of "[(''force_kgf'', [Some 2])]" _ "[Some 2]"]
        ensure_thrust_newton_normalises [of "[(''rpm'', [Some 2])]"]
  by (simp add: columns_def)


subsection \<open>Thrust tables of process\_thrust\_map\<close>

lemma all_some_conv:
  "all_some xs = (if None \<in> set xs then None else Some (map the xs))"
  by (induction xs rule: all_some.induct) auto

lemma map_nth_frame: "map (\<lambda>j. F (df ! j)) [0..<length df] = map F df"
  by (intro nth_equalityI) simp_all

lemma map_filter_all_some_map:
  "List.map_filter all_some (map g xs) =
   map (\<lambda>i. map the (g i)) (filter (\<lambda>i. None \<notin> set (g i)) xs)"
  by (induction xs) (auto simp: List.map_filter_simps all_some_conv)

lemma dropna_conv:
  "dropna df =
     map (\<lambda>(c, vs). (c, map (\<lambda>i. the (vs ! i))
            (filter (\<lambda>i. \<forall>(c', ws) \<in> set df. ws ! i \<noteq> None) [0..<nrows df]))) df"
proof -
  let ?I = "filter (\<lambda>i. \<forall>(c', ws) \<in> set df. ws ! i \<noteq> None) [0..<nrows df]"
  have ok: "(None \<notin> set (row_at df i)) = (\<forall>(c', ws) \<in> set df. ws ! i \<noteq> None)" for i
  proof -
    have "(None \<in> set (row_at df i)) = (\<exists>p \<in> set df. snd p ! i = None)"
      by (force simp: row_at_def case_prod_unfold image_iff)
    then show ?thesis
      by (simp add: case_prod_unfold)
  qed
  have rs: "List.map_filter all_some (rows df) = map (\<lambda>i. map the (row_at df i)) ?I"
    unfolding rows_def map_filter_all_some_map ok ..
  have cell: "map the (row_at df i) ! j = the (snd (df ! j) ! i)" if "j < length df" for i j
    using that by (simp add: row_at_def case_prod_unfold)
  have "dropna df = map (\<lambda>j. (fst (df ! j), map (\<lambda>i. the (snd (df ! j) ! i)) ?I)) [0..<length df]"
    by (simp add: dropna_def from_rows_def columns_def rs cell comp_def)
  also have "\<dots> = map (\<lambda>(c, vs). (c, map (\<lambda>i. the (vs ! i)) ?I)) df"
    using map_nth_frame [of "\<lambda>p. (fst p, map (\<lambda>i. the (snd p ! i)) ?I)" df]
    by (simp add: case_prod_unfold)
  finally show ?thesis .
qed

lemma select_two:
  "map_of df k = Some ks \<Longrightarrow> map_of df t = Some ts \<Longrightarrow>
   select df [k, t] = Inr [(k, ks), (t, ts)]"
  by (simp add: getitem_def)

lemma strict_sorted_argsort_id:
  assumes "valid_argsort asort" "sorted_wrt (<) xs"
  shows "asort xs = [0..<length xs]"
proof -
  let ?p = "asort xs"
  have perm: "mset ?p = mset [0..<length xs]" and srt: "sorted (map ((!) xs) ?p)"
    using assms(1) by (simp_all add: valid_argsort_def)
  have len: "length ?p = length xs"
    using perm by (metis size_mset length_upt diff_zero)
  have "mset (map ((!) xs) ?p) = mset (map ((!) xs) [0..<length xs])"
    using perm by (metis mset_map)
  then have "mset (map ((!) xs) ?p) = mset xs" by (simp add: map_nth)
  moreover have "sorted xs" using assms(2) by (simp add: strict_sorted_iff)
  ultimately have eq: "map ((!) xs) ?p = xs"
    using srt by (metis properties_for_sort sorted_sort_id)
  have dist: "distinct xs" using assms(2) by (simp add: strict_sorted_iff)
  have bound: "\<forall>i \<in> set ?p. i < length xs"
    using perm by (metis atLeastLessThan_iff set_mset_mset set_upt)
  show ?thesis
  proof (rule nth_equalityI)
    show "length ?p = length [0..<length xs]" using len by simp
  next
    fix i assume "i < length ?p"
    then have i: "i < length xs" using len by simp
    have "xs ! (?p ! i) = xs ! i"
      using eq i len by (metis nth_map)
    moreover have "?p ! i < length xs" using bound i len by simp
    ultimately have "?p ! i = i"
      using dist i by (simp add: nth_eq_iff_index_eq)
    then show "?p ! i = [0..<length xs] ! i" using i by simp
  qed
qed

lemma sort_values_groupby_id:
  assumes "valid_argsort asort" "sorted_wrt (<) keys" "\<forall>c \<in> set df. length (snd c) = length keys"
    and "map_of df key = Some keys"
  shows "sort_values asort key df = Inr df"
proof -
  have "map ((!) vs) [0..<length keys] = vs" if "length vs = length keys" for vs :: "real list"
    using that by (metis map_nth)
  then have "map (\<lambda>(c, vs). (c, map ((!) vs) [0..<length keys])) df = df"
    using assms(3) by (intro map_idI) auto
  then show ?thesis
    using assms(4) strict_sorted_argsort_id [OF assms(1,2)]
    by (simp add: sort_values_def getitem_def)
qed

lemma group_vals_map:
  "group_vals (map f I) (map g I) u = map g (filter (\<lambda>i. f i = u) I)"
  by (induction I) (auto simp: group_vals_def)

lemma thrust_by_key_conv:
  assumes "valid_argsort asort" "map_of df k = Some ks" "map_of df t = Some ts" "k \<noteq> t"
  shows "thrust_by_key asort df k t out =
     (let I = filter (\<lambda>i. ks ! i \<noteq> None \<and> ts ! i \<noteq> None) [0..<length ks];
          uniq = sort (remdups (map (\<lambda>i. the (ks ! i)) I))
      in Inr [(out, uniq),
              (''thrust_N'',
               map (\<lambda>u. mean (map (\<lambda>i. the (ts ! i)) (filter (\<lambda>i. the (ks ! i) = u) I))) uniq)])"
proof -
  let ?I = "filter (\<lambda>i. ks ! i \<noteq> None \<and> ts ! i \<noteq> None) [0..<length ks]"
  let ?kc = "map (\<lambda>i. the (ks ! i)) ?I" and ?tc = "map (\<lambda>i. the (ts ! i)) ?I"
  let ?uniq = "sort (remdups ?kc)"
  let ?means = "map (\<lambda>u. mean (map (\<lambda>i. the (ts ! i)) (filter (\<lambda>i. the (ks ! i) = u) ?I))) ?uniq"
  have sel: "select df [k, t] = Inr [(k, ks), (t, ts)]"
    by (rule select_two [OF assms(2,3)])
  have dn: "dropna [(k, ks), (t, ts)] = [(k, ?kc), (t, ?tc)]"
    by (simp add: dropna_conv nrows_def)
  have gb: "groupby_mean k [(k, ?kc), (t, ?tc)] = Inr [(k, ?uniq), (t, ?means)]"
    using assms(4) by (simp add: groupby_mean_def Let_def group_vals_map)
  have sv: "sort_values asort k [(k, ?uniq), (t, ?means)] = Inr [(k, ?uniq), (t, ?means)]"
    by (rule sort_values_groupby_id [OF assms(1), of ?uniq])
       (simp_all add: strict_sorted_iff)
  have rn: "rename [(k, ?uniq), (t, ?means)] [(k, out), (t, ''thrust_N'')]
            = [(out, ?uniq), (''thrust_N'', ?means)]"
    using assms(4) by (simp add: rename_def)
  show ?thesis
    by (simp only: thrust_by_key_def sel dn gb sv rn Let_def sum.case)
qed

lemma thrust_by_key_spec:
  assumes "valid_argsort asort" "wf_frame df"
    and "map_of df k = Some ks" "map_of df t = Some ts" "k \<noteq> t"
  shows "\<exists>keys means.
           thrust_by_key asort df k t out = Inr [(out, keys), (''thrust_N'', means)]
         \<and> length means = length keys \<and> sorted_wrt (<) keys
         \<and> set keys = {x. \<exists>i < nrows df. ks ! i = Some x \<and> ts ! i \<noteq> None}
         \<and> (\<forall>j < length keys.
               means ! j =
                 (\<Sum>i \<in> {i. i < nrows df \<and> ks ! i = Some (keys ! j) \<and> ts ! i \<noteq> None}.
                    the (ts ! i))
                 / real (card {i. i < nrows df \<and> ks ! i = Some (keys ! j) \<and> ts ! i \<noteq> None}))"
proof -
  have n: "length ks = nrows df"
    by (rule wf_frame_length [OF assms(2,3)])
  let ?I = "filter (\<lambda>i. ks ! i \<noteq> None \<and> ts ! i \<noteq> None) [0..<nrows df]"
  let ?keys = "sort (remdups (map (\<lambda>i. the (ks ! i)) ?I))"
  let ?grp = "\<lambda>u. filter (\<lambda>i. the (ks ! i) = u) ?I"
  let ?means = "map (\<lambda>u. mean (map (\<lambda>i. the (ts ! i)) (?grp u))) ?keys"
  have r: "thrust_by_key asort df k t out = Inr [(out, ?keys), (''thrust_N'', ?means)]"
    using thrust_by_key_conv [OF assms(1,3,4,5), of out] by (simp add: Let_def n)
  have grp: "set (?grp u) = {i. i < nrows df \<and> ks ! i = Some u \<and> ts ! i \<noteq> None}" for u
    by auto
  have sk: "set ?keys = {x. \<exists>i < nrows df. ks ! i = Some x \<and> ts ! i \<noteq> None}"
    by (auto simp: image_iff) force
  have m: "mean (map (\<lambda>i. the (ts ! i)) (?grp u)) =
           (\<Sum>i \<in> {i. i < nrows df \<and> ks ! i = Some u \<and> ts ! i \<noteq> None}. the (ts ! i))
           / real (card {i. i < nrows df \<and> ks ! i = Some u \<and> ts ! i \<noteq> None})" for u
  proof -
    have d: "distinct (?grp u)" by simp
    have "sum_list (map (\<lambda>i. the (ts ! i)) (?grp u)) = sum (\<lambda>i. the (ts ! i)) (set (?grp u))"
      by (rule sum_list_distinct_conv_sum_set [OF d])
    moreover have "length (?grp u) = card (set (?grp u))"
      by (rule distinct_card [OF d, symmetric])
    ultimately show ?thesis
      unfolding mean_def grp by (simp only: length_map)
  qed
  have "length ?means = length ?keys" by simp
  moreover have "sorted_wrt (<) ?keys" by (rule sorted_wrt_less_sort_remdups)
  moreover have "\<forall>j < length ?keys. ?means ! j =
      (\<Sum>i \<in> {i. i < nrows df \<and> ks ! i = Some (?keys ! j) \<and> ts ! i \<noteq> None}. the (ts ! i))
      / real (card {i. i < nrows df \<and> ks ! i = Some (?keys ! j) \<and> ts ! i \<noteq> None})"
    using m by (simp del: length_sort length_remdups_card_conv)
  ultimately show ?thesis using r sk by blast
qed

lemma ensure_thrust_newton_result:
  "\<exists>df1 tc. ensure_thrust_newton df = Inr (df1, tc) \<and> (tc = None \<or> tc = Some ''thrust_N'')"
proof -
  have g: "\<exists>vs. getitem df c = Inr vs" if "pick_column df as = Some c" for c as
    using pick_column_Some [OF that] by (auto simp: in_columns_map_of getitem_def)
  show ?thesis
    unfolding ensure_thrust_newton_def
    by (auto split: option.splits sum.splits dest: g)
qed

lemma main_throttle_file:
  assumes "ensure_thrust_newton df0 = Inr (df1, Some t)"
    and "add_power_if_possible df1 = Inr df"
    and "pick_column df [''throttle_pct'', ''throttle_percent'', ''throttle''] = Some k"
    and "thrust_by_key asort df k t ''throttle_pct'' = Inr tab"
  shows "(''thrustmap_throttle_'' @ tm_name args @ ''.csv'', to_csv tab)
         \<in> set (files (thrust_map_main asort args df0))"
  using assms
  by (simp add: thrust_map_main_def Let_def split: sum.splits option.splits)

lemma columns_setitem: "set (columns (setitem df c vs)) = insert c (set (columns df))"
proof -
  have e: "map fst (map (\<lambda>(n, old). (n, if n = c then vs else old)) df) = map fst df"
    by (simp add: case_prod_unfold comp_def)
  show ?thesis
  proof (cases "c \<in> set (columns df)")
    case True
    then have "columns (setitem df c vs) = columns df"
      unfolding setitem_def columns_def by (simp only: if_True e)
    with True show ?thesis by (simp add: insert_absorb)
  next
    case False
    then show ?thesis by (simp add: setitem_def columns_def)
  qed
qed

lemma columns_rename_single:
  "old \<in> set (columns df) \<Longrightarrow> new \<in> set (columns (rename df [(old, new)]))"
  by (force simp: rename_def columns_def image_iff)

lemma ensure_thrust_col:
  assumes "ensure_thrust_newton df0 = Inr (df1, Some t)"
  shows "t = ''thrust_N'' \<and> t \<in> set (columns df1)"
proof -
  show ?thesis
  proof (cases "pick_column df0 [''thrust_N'', ''thrust'', ''force_N'']")
    case (Some c)
    have c: "c \<in> set (columns df0)" using pick_column_Some [OF Some] by simp
    show ?thesis
    proof (cases "c = ''thrust_N''")
      case True
      with assms Some c show ?thesis by (simp add: ensure_thrust_newton_def)
    next
      case False
      with assms Some columns_rename_single [OF c, of "''thrust_N''"] show ?thesis
        by (auto simp: ensure_thrust_newton_def)
    qed
  next
    case None
    with assms show ?thesis
      by (auto simp: ensure_thrust_newton_def columns_setitem split: option.splits sum.splits)
  qed
qed

lemma add_power_columns:
  assumes "add_power_if_possible df1 = Inr df"
  shows "set (columns df1) \<subseteq> set (columns df)"
  using assms unfolding add_power_if_possible_def
  by (auto simp: Let_def columns_setitem split: option.splits sum.splits)

lemma thrust_by_key_total:
  assumes "k \<in> set (columns df)" "t \<in> set (columns df)"
  shows "\<exists>tab. thrust_by_key asort df k t out = Inr tab"
proof -
  from assms obtain ks ts where m: "map_of df k = Some ks" "map_of df t = Some ts"
    by (auto simp: in_columns_map_of)
  have sel: "select df [k, t] = Inr [(k, ks), (t, ts)]"
    by (rule select_two [OF m])
  obtain kc tc where dn: "dropna [(k, ks), (t, ts)] = [(k, kc), (t, tc)]"
    by (simp add: dropna_conv)
  obtain rest where gb: "groupby_mean k [(k, kc), (t, tc)] = Inr ((k, sort (remdups kc)) # rest)"
    by (simp add: groupby_mean_def Let_def)
  obtain s where sv: "sort_values asort k ((k, sort (remdups kc)) # rest) = Inr s"
    by (simp add: sort_values_def getitem_def)
  show ?thesis
    by (simp only: thrust_by_key_def sel dn gb sv sum.case) simp
qed

lemma main_rpm_file:
  assumes "ensure_thrust_newton df0 = Inr (df1, Some t)"
    and "add_power_if_possible df1 = Inr df"
    and "pick_column df [''rpm'', ''motor_rpm''] = Some k"
    and "thrust_by_key asort df k t ''rpm'' = Inr tab"
  shows "(''thrustmap_rpm_'' @ tm_name args @ ''.csv'', to_csv tab)
         \<in> set (files (thrust_map_main asort args df0))"
proof -
  have t: "t \<in> set (columns df)"
    using ensure_thrust_col [OF assms(1)] add_power_columns [OF assms(2)] by auto
  have "thrust_by_key asort df k' t ''throttle_pct'' \<noteq> Inl e"
    if "pick_column df [''throttle_pct'', ''throttle_percent'', ''throttle''] = Some k'" for k' e
    using thrust_by_key_total [OF _ t, of k' asort "''throttle_pct''"] pick_column_Some [OF that]
    by auto
  then show ?thesis
    using assms
    by (auto simp: thrust_map_main_def Let_def split: sum.splits option.splits)
qed

lemma nrows_setitem:
  assumes "length vs = nrows df"
  shows "nrows (setitem df c vs) = nrows df"
proof (cases df)
  case Nil
  with assms show ?thesis by (simp add: setitem_def nrows_def columns_def)
next
  case (Cons p rest)
  obtain n old where p: "p = (n, old)" by (cases p)
  show ?thesis
    using assms by (simp add: Cons p setitem_def nrows_def columns_def)
qed

lemma wf_setitem:
  assumes "wf_frame df" "length vs = nrows df"
  shows "wf_frame (setitem df c vs)"
proof -
  have d: "distinct (columns (setitem df c vs))"
  proof (cases "c \<in> set (columns df)")
    case True
    have "map fst (map (\<lambda>(n, old). (n, if n = c then vs else old)) df) = map fst df"
      by (simp add: case_prod_unfold comp_def)
    then have "columns (setitem df c vs) = columns df"
      using True unfolding setitem_def columns_def by (simp only: if_True)
    with assms(1) show ?thesis by (simp add: wf_frame_def)
  next
    case False
    with assms(1) show ?thesis by (simp add: setitem_def columns_def wf_frame_def)
  qed
  have l: "\<forall>p \<in> set (setitem df c vs). length (snd p) = nrows df"
    using assms by (auto simp: setitem_def wf_frame_def)
  show ?thesis
    using d l by (simp add: wf_frame_def nrows_setitem [OF assms(2)])
qed

lemma wf_rename_single:
  assumes "wf_frame df" "new \<notin> set (columns df)"
  shows "wf_frame (rename df [(old, new)])"
proof -
  let ?f = "\<lambda>c. if c = old then new else c"
  have r: "rename df [(old, new)] = map (\<lambda>(c, vs). (?f c, vs)) df"
    by (auto simp: rename_def)
  have c: "columns (rename df [(old, new)]) = map ?f (columns df)"
    by (simp add: r columns_def case_prod_unfold comp_def)
  have "inj_on ?f (set (columns df))"
    using assms(2) by (auto simp: inj_on_def)
  then have d: "distinct (columns (rename df [(old, new)]))"
    using assms(1) by (simp add: c distinct_map wf_frame_def)
  have n: "nrows (rename df [(old, new)]) = nrows df"
    unfolding r by (cases df) (auto simp: nrows_def)
  have "\<forall>p \<in> set (rename df [(old, new)]). length (snd p) = nrows df"
    using assms(1) by (auto simp: r wf_frame_def)
  then show ?thesis using d by (simp add: wf_frame_def n)
qed

lemma length_scale: "length (scale vs k) = length vs"
  by (simp add: scale_def)

lemma wf_ensure_thrust_newton:
  assumes "wf_frame df0" "ensure_thrust_newton df0 = Inr (df1, tc)"
  shows "wf_frame df1"
proof (cases "pick_column df0 [''thrust_N'', ''thrust'', ''force_N'']")
  case (Some c)
  show ?thesis
  proof (cases "c = ''thrust_N''")
    case True
    with assms Some show ?thesis by (simp add: ensure_thrust_newton_def)
  next
    case False
    with Some have "''thrust_N'' \<notin> set (columns df0)"
      by (auto simp: pick_column_def split: if_splits)
    from wf_rename_single [OF assms(1) this, of c] assms(2) Some False show ?thesis
      by (auto simp: ensure_thrust_newton_def)
  qed
next
  case None
  have g: "wf_frame (setitem df0 ''thrust_N'' (scale vs k))" if "getitem df0 c = Inr vs" for c vs k
  proof -
    from that have "map_of df0 c = Some vs"
      by (auto simp: getitem_def split: option.splits)
    then have "length (scale vs k) = nrows df0"
      using wf_frame_length [OF assms(1)] by (simp add: length_scale)
    then show ?thesis by (rule wf_setitem [OF assms(1)])
  qed
  from assms(2) None show ?thesis
    using assms(1) g
    by (auto simp: ensure_thrust_newton_def split: option.splits sum.splits)
qed

lemma wf_add_power_if_possible:
  assumes "wf_frame df1" "add_power_if_possible df1 = Inr df"
  shows "wf_frame df"
proof -
  have g: "wf_frame (setitem df1 ''power_W'' (times vv iv))"
    if "getitem df1 vc = Inr vv" "getitem df1 ic = Inr iv" for vc ic vv iv
  proof -
    from that have "map_of df1 vc = Some vv" "map_of df1 ic = Some iv"
      by (auto simp: getitem_def split: option.splits)
    then have "length (times vv iv) = nrows df1"
      using wf_frame_length [OF assms(1)] by (simp add: length_times)
    then show ?thesis by (rule wf_setitem [OF assms(1)])
  qed
  from assms(2) show ?thesis
    using assms(1) g
    by (auto simp: add_power_if_possible_def Let_def split: option.splits sum.splits)
qed

lemma to_csv_two: "to_csv [(a, xs), (b, ys)] = [(a, map Some xs), (b, map Some ys)]"
  by (simp add: to_csv_def)

text \<open>
  C8 (amended). In process\_thrust\_map, when both the grouping column (throttle,
  resp. rpm) and a thrust column are present, the thrustmap\_throttle (resp.
  thrustmap\_rpm) table has exactly one row per distinct key value that occurs
  in an input row where both the key and the thrust are present; the rows are
  in strictly ascending key order, and each row's thrust\_N is the mean thrust
  over the input rows with that key whose thrust is present. The input rows are
  those of the table after thrust normalisation and power derivation.
\<close>

theorem thrust_tables_grouped_by_key:
  assumes "valid_argsort asort" "wf_frame df0"
    and "ensure_thrust_newton df0 = Inr (df1, Some t)"
    and "add_power_if_possible df1 = Inr df"
    and "pick_column df [''throttle_pct'', ''throttle_percent'', ''throttle''] = Some k
           \<and> out = ''throttle_pct'' \<and> file = ''thrustmap_throttle_''
         \<or> pick_column df [''rpm'', ''motor_rpm''] = Some k
           \<and> out = ''rpm'' \<and> file = ''thrustmap_rpm_''"
  shows "\<exists>ks ts keys means.
           map_of df k = Some ks \<and> map_of df t = Some ts
         \<and> (file @ tm_name args @ ''.csv'', [(out, map Some keys), (''thrust_N'', map Some means)])
             \<in> set (files (thrust_map_main asort args df0))
         \<and> length means = length keys \<and> sorted_wrt (<) keys
         \<and> set keys = {x. \<exists>i < nrows df. ks ! i = Some x \<and> ts ! i \<noteq> None}
         \<and> (\<forall>j < length keys.
               means ! j =
                 (\<Sum>i \<in> {i. i < nrows df \<and> ks ! i = Some (keys ! j) \<and> ts ! i \<noteq> None}.
                    the (ts ! i))
                 / real (card {i. i < nrows df \<and> ks ! i = Some (keys ! j) \<and> ts ! i \<noteq> None}))"
proof -
  have wf: "wf_frame df"
    using wf_add_power_if_possible [OF wf_ensure_thrust_newton [OF assms(2,3)] assms(4)] .
  have t: "t = ''thrust_N''" "t \<in> set (columns df)"
    using ensure_thrust_col [OF assms(3)] add_power_columns [OF assms(4)] by auto
  have k: "k \<in> set (columns df)" "k \<noteq> t"
    using assms(5) t(1) by (auto dest!: pick_column_Some)
  from k(1) t(2) obtain ks ts where m: "map_of df k = Some ks" "map_of df t = Some ts"
    by (auto simp: in_columns_map_of)
  from thrust_by_key_spec [OF assms(1) wf m k(2), of out] obtain keys means where
    r: "thrust_by_key asort df k t out = Inr [(out, keys), (''thrust_N'', means)]"
    and p: "length means = length keys" "sorted_wrt (<) keys"
      "set keys = {x. \<exists>i < nrows df. ks ! i = Some x \<and> ts ! i \<noteq> None}"
      "\<forall>j < length keys.
               means ! j =
                 (\<Sum>i \<in> {i. i < nrows df \<and> ks ! i = Some (keys ! j) \<and> ts ! i \<noteq> None}.
                    the (ts ! i))
                 / real (card {i. i < nrows df \<and> ks ! i = Some (keys ! j) \<and> ts ! i \<noteq> None})"
    by blast
  have "(file @ tm_name args @ ''.csv'', [(out, map Some keys), (''thrust_N'', map Some means)])
        \<in> set (files (thrust_map_main asort args df0))"
    using assms(5)
  proof
    assume a: "pick_column df [''throttle_pct'', ''throttle_percent'', ''throttle''] = Some k
           \<and> out = ''throttle_pct'' \<and> file = ''thrustmap_throttle_''"
    then show ?thesis
      using main_throttle_file [OF assms(3,4), of k asort _ args] r
      by (simp add: to_csv_two)
  next
    assume a: "pick_column df [''rpm'', ''motor_rpm''] = Some k
           \<and> out = ''rpm'' \<and> file = ''thrustmap_rpm_''"
    then show ?thesis
      using main_rpm_file [OF assms(3,4), of k asort _ args] r
      by (simp add: to_csv_two)
  qed
  with m p show ?thesis by blast
qed

theorem thrust_tables_grouped_by_key_witness:
  "thrust_map_main stable_argsort \<lparr>tm_name = ''m''\<rparr>
     [(''throttle'', [Some 20, Some 10, Some 20]), (''thrust_N'', [Some 1, Some 5, Some 2])]
   = \<lparr>files = [(''thrustmap_throttle_m.csv'',
                  [(''throttle_pct'', [Some 10, Some 20]), (''thrust_N'', [Some 5, Some (3 / 2)])]),
                (''thrustmap_clean_m.csv'',
                  [(''throttle'', [Some 20, Some 10, Some 20]),
                   (''thrust_N'', [Some 1, Some 5, Some 2])])],
       status = Completed\<rparr>"
proof -
  let ?df = "[(''throttle'', [Some 20, Some 10, Some (20::real)]),
              (''thrust_N'', [Some 1, Some 5, Some 2])]"
  have w: "wf_frame ?df" by (simp add: wf_frame_def columns_def nrows_def)
  have e: "ensure_thrust_newton ?df = Inr (?df, Some ''thrust_N'')" by code_simp
  have a: "add_power_if_possible ?df = Inr ?df" by code_simp
  have p: "pick_column ?df [''throttle_pct'', ''throttle_percent'', ''throttle''] = Some ''throttle''
           \<and> ''throttle_pct'' = ''throttle_pct'' \<and> ''thrustmap_throttle_'' = ''thrustmap_throttle_''
         \<or> pick_column ?df [''rpm'', ''motor_rpm''] = Some ''throttle''
           \<and> ''throttle_pct'' = ''rpm'' \<and> ''thrustmap_throttle_'' = ''thrustmap_rpm_''"
    by code_simp
  note thrust_tables_grouped_by_key [OF valid_stable_argsort w e a p, of "\<lparr>tm_name = ''m''\<rparr>"]
  moreover have "thrust_map_main stable_argsort \<lparr>tm_name = ''m''\<rparr> ?df
   = \<lparr>files = [(''thrustmap_throttle_m.csv'',
                  [(''throttle_pct'', [Some 10, Some 20]), (''thrust_N'', [Some 5, Some (3 / 2)])]),
                (''thrustmap_clean_m.csv'', ?df)],
       status = Completed\<rparr>"
    by code_simp
  ultimately show ?thesis by simp
qed

text \<open>
  The claim as first stated, one row per distinct key that is not missing, fails:
  the key 20 below is present, its only thrust reading is missing, and the
  throttle table has no row for it.
\<close>

theorem missing_thrust_key_dropped:
  "fst (hd (files (thrust_map_main stable_argsort \<lparr>tm_name = ''m''\<rparr>
      [(''throttle_pct'', [Some 10, Some 20]), (''thrust_N'', [Some 1, None])])))
     = ''thrustmap_throttle_m.csv''
   \<and> snd (hd (files (thrust_map_main stable_argsort \<lparr>tm_name = ''m''\<rparr>
      [(''throttle_pct'', [Some 10, Some 20]), (''thrust_N'', [Some 1, None])])))
     = [(''throttle_pct'', [Some 10]), (''thrust_N'', [Some 1])]"
  by code_simp

subsection \<open>Independence of the sorting routine\<close>

lemma valid_reverse_argsort: "valid_argsort reverse_argsort"
proof -
  have "mset (reverse_argsort xs) = mset [0..<length xs]" for xs :: "real list"
  proof -
    have "mset (reverse_argsort xs) = mset (map snd (zip xs [0..<length xs]))"
      unfolding reverse_argsort_def mset_map mset_sort mset_rev ..
    also have "map snd (zip xs [0..<length xs]) = [0..<length xs]"
      by (rule map_snd_zip) simp
    finally show ?thesis .
  qed
  moreover have "sorted (map ((!) xs) (reverse_argsort xs))" for xs :: "real list"
  proof -
    let ?ps = "sort_key fst (rev (zip xs [0..<length xs]))"
    have e: "map ((!) xs) (map snd ?ps) = map fst ?ps"
      by (auto simp: set_zip)
    show ?thesis unfolding reverse_argsort_def e by (rule sorted_sort_key)
  qed
  ultimately show ?thesis by (simp add: valid_argsort_def)
qed

lemma invert_any_argsort:
  assumes "valid_argsort f" "valid_argsort g"
  shows "invert_cmd_vs_force_to_force_vs_cmd f cmd force =
         invert_cmd_vs_force_to_force_vs_cmd g cmd force"
proof (cases "length cmd \<le> length force")
  case True
  then show ?thesis
    by (simp only: invert_canonical [OF assms(1) True] invert_canonical [OF assms(2) True])
next
  case False
  then have "length force < length cmd" by simp
  then show ?thesis
    by (simp only: invert_short [OF assms(1)] invert_short [OF assms(2)])
qed

lemma convert_main_any_argsort:
  assumes "valid_argsort f" "valid_argsort g"
  shows "convert_main f args file_rows = convert_main g args file_rows"
  unfolding convert_main_def invert_any_argsort [OF assms] ..

lemma sort_values_after_groupby:
  assumes "valid_argsort f" "valid_argsort g" "groupby_mean k d = Inr gt"
  shows "sort_values f k gt = sort_values g k gt"
proof -
  from assms(3) obtain ks rest where
    gt: "gt = (k, sort (remdups ks)) # rest"
    by (auto simp: groupby_mean_def Let_def split: option.splits)
  have s: "sorted_wrt (<) (sort (remdups ks))" by (rule sorted_wrt_less_sort_remdups)
  have "f (sort (remdups ks)) = g (sort (remdups ks))"
    by (simp only: strict_sorted_argsort_id [OF assms(1) s] strict_sorted_argsort_id [OF assms(2) s])
  then show ?thesis
    by (simp add: gt sort_values_def getitem_def)
qed

lemma thrust_by_key_any_argsort:
  assumes "valid_argsort f" "valid_argsort g"
  shows "thrust_by_key f df k t out = thrust_by_key g df k t out"
  using sort_values_after_groupby [OF assms]
  by (auto simp: thrust_by_key_def split: sum.splits)

lemma thrust_map_main_any_argsort:
  assumes "valid_argsort f" "valid_argsort g"
  shows "thrust_map_main f args df0 = thrust_map_main g args df0"
  unfolding thrust_map_main_def thrust_by_key_any_argsort [OF assms] ..

text \<open>
  C7. For each of the three scripts the output is a function of the input table
  and the command-line arguments alone: two runs on the same data with the same
  arguments leave the same files, with the same names, headers, column order
  and rows in the same order, and end the same way. The one freedom the
  libraries leave, how \<open>np.argsort\<close> and \<open>sort_values\<close> order equal keys, does
  not show in any output: the runs agree for every two sorting routines \<open>f\<close> and
  \<open>g\<close> within the contract.
\<close>

theorem outputs_deterministic:
  assumes "valid_argsort f" "valid_argsort g"
  shows "(ca = ca' \<and> file_rows = file_rows' \<longrightarrow>
            convert_main f ca file_rows = convert_main g ca' file_rows')
       \<and> (ta = ta' \<and> tlog = tlog' \<longrightarrow>
            thrust_map_main f ta tlog = thrust_map_main g ta' tlog')
       \<and> (ea = ea' \<and> elog = elog' \<longrightarrow>
            efficiency_main ea elog = efficiency_main ea' elog')"
  using convert_main_any_argsort [OF assms] thrust_map_main_any_argsort [OF assms]
  by blast

theorem outputs_deterministic_witness:
  "stable_argsort [3, 3] \<noteq> reverse_argsort [3, 3]
   \<and> convert_main stable_argsort
        \<lparr>cv_name = ''m'', cv_voltage = None, cv_min_cmd = None, cv_max_cmd = None\<rparr>
        [[2, 0, 1, 10, 12], [100, 200, 0, 0, 0], [300, 300, 0, 0, 0]]
     = convert_main reverse_argsort
        \<lparr>cv_name = ''m'', cv_voltage = None, cv_min_cmd = None, cv_max_cmd = None\<rparr>
        [[2, 0, 1, 10, 12], [100, 200, 0, 0, 0], [300, 300, 0, 0, 0]]
   \<and> thrust_map_main stable_argsort \<lparr>tm_name = ''m''\<rparr>
        [(''rpm'', [Some 7, Some 7]), (''thrust'', [Some 1, Some 2])]
     = thrust_map_main reverse_argsort \<lparr>tm_name = ''m''\<rparr>
        [(''rpm'', [Some 7, Some 7]), (''thrust'', [Some 1, Some 2])]"
proof -
  have ne: "stable_argsort [3, 3] \<noteq> reverse_argsort [3, 3]" by code_simp
  show ?thesis
    using ne outputs_deterministic [OF valid_stable_argsort valid_reverse_argsort,
        of "\<lparr>cv_name = ''m'', cv_voltage = None, cv_min_cmd = None, cv_max_cmd = None\<rparr>"
           "\<lparr>cv_name = ''m'', cv_voltage = None, cv_min_cmd = None, cv_max_cmd = None\<rparr>"
           "[[2, 0, 1, 10, 12], [100, 200, 0, 0, 0], [300, 300, 0, 0, 0]]"
           "[[2, 0, 1, 10, 12], [100, 200, 0, 0, 0], [300, 300, 0, 0, 0]]"
           "\<lparr>tm_name = ''m''\<rparr>" "\<lparr>tm_name = ''m''\<rparr>"
           "[(''rpm'', [Some 7, Some 7]), (''thrust'', [Some 1, Some 2])]"
           "[(''rpm'', [Some 7, Some 7]), (''thrust'', [Some 1, Some 2])]"]
    by simp
qed

subsection \<open>How a run of process\_thrust\_map ends\<close>

lemma select_total:
  "set cs \<subseteq> set (columns df) \<Longrightarrow> \<exists>r. select df cs = Inr r"
proof (induction cs)
  case Nil
  then show ?case by simp
next
  case (Cons c cs)
  then obtain r where r: "select df cs = Inr r" by auto
  from Cons.prems obtain vs where "map_of df c = Some vs"
    by (auto simp: in_columns_map_of)
  then show ?case by (simp add: getitem_def r)
qed

lemma add_power_total: "\<exists>df. add_power_if_possible df1 = Inr df"
proof -
  have g: "\<exists>vs. getitem df1 c = Inr vs" if "pick_column df1 as = Some c" for c as
    using pick_column_Some [OF that] by (auto simp: in_columns_map_of getitem_def)
  show ?thesis
    unfolding add_power_if_possible_def Let_def
    by (auto split: option.splits sum.splits dest: g)
qed

lemma set_map_filter_id: "set (List.map_filter id ys) = {n. Some n \<in> set ys}"
  by (induction ys) (auto simp: List.map_filter_simps split: option.splits)

lemma keep_cols_subset:
  assumes "throttle_col = pick_column df as1" "rpm_col = pick_column df as2"
    and "thrust_col = None \<or> (\<exists>t. thrust_col = Some t \<and> t \<in> set (columns df))"
  shows "set (keep_cols df throttle_col rpm_col thrust_col) \<subseteq> set (columns df)"
proof
  fix n assume "n \<in> set (keep_cols df throttle_col rpm_col thrust_col)"
  then have "Some n \<in> set (filter (\<lambda>c. (case c of None \<Rightarrow> False | Some n \<Rightarrow> n \<in> set (columns df))
                    \<or> c \<in> set [thrust_col, throttle_col, rpm_col])
          [Some ''time_s'', throttle_col, rpm_col, thrust_col,
           Some ''voltage_V'', Some ''current_A'', Some ''power_W''])"
    unfolding keep_cols_def set_map_filter_id by simp
  then have "(n \<in> set (columns df)) \<or> Some n \<in> set [thrust_col, throttle_col, rpm_col]"
    unfolding set_filter by simp
  then show "n \<in> set (columns df)"
    using assms pick_column_Some [of df as1 n] pick_column_Some [of df as2 n]
    by auto
qed

lemma thrust_map_main_shape:
  "\<exists>written. thrust_map_main asort args df0 =
       \<lparr>files = written, status = (if written = [] then Exited 1 else Completed)\<rparr>"
proof -
  obtain df1 tc where e: "ensure_thrust_newton df0 = Inr (df1, tc)"
    using ensure_thrust_newton_result [of df0] by blast
  obtain df where a: "add_power_if_possible df1 = Inr df"
    using add_power_total by blast
  have tc: "tc = None \<or> (\<exists>t. tc = Some t \<and> t \<in> set (columns df))"
    using ensure_thrust_col [of df0 df1] e add_power_columns [OF a] by (cases tc) auto
  have tbk: "\<exists>tab. thrust_by_key asort df k t out = Inr tab"
    if "pick_column df as = Some k" "tc = Some t" for as k t out
    using that tc pick_column_Some [OF that(1)] by (intro thrust_by_key_total) auto
  let ?thr = "pick_column df [''throttle_pct'', ''throttle_percent'', ''throttle'']"
  let ?rpm = "pick_column df [''rpm'', ''motor_rpm'']"
  obtain o1 where A: "(case (?thr, tc) of
              (Some k, Some t) \<Rightarrow>
                (case thrust_by_key asort df k t ''throttle_pct'' of
                   Inl e \<Rightarrow> Inl e
                 | Inr throttle \<Rightarrow>
                     Inr [(''thrustmap_throttle_'' @ tm_name args @ ''.csv'', to_csv throttle)])
            | _ \<Rightarrow> Inr []) = Inr o1"
    using tbk [of _ _ _ "''throttle_pct''"]
    by (cases ?thr; cases tc) (fastforce split: sum.splits)+
  obtain o2 where B: "(case (?rpm, tc) of
              (Some k, Some t) \<Rightarrow>
                (case thrust_by_key asort df k t ''rpm'' of
                   Inl e \<Rightarrow> Inl e
                 | Inr rpm \<Rightarrow>
                     Inr [(''thrustmap_rpm_'' @ tm_name args @ ''.csv'', to_csv rpm)])
            | _ \<Rightarrow> Inr []) = Inr o2"
    using tbk [of _ _ _ "''rpm''"]
    by (cases ?rpm; cases tc) (fastforce split: sum.splits)+
  have "set (keep_cols df ?thr ?rpm tc) \<subseteq> set (columns df)"
    by (rule keep_cols_subset [OF refl refl tc])
  from select_total [OF this] obtain clean where
    s: "select df (keep_cols df ?thr ?rpm tc) = Inr clean" by blast
  have "\<exists>o3. (if keep_cols df ?thr ?rpm tc \<noteq> []
            then (case select df (keep_cols df ?thr ?rpm tc) of
                    Inl e \<Rightarrow> Inl e
                  | Inr clean \<Rightarrow> Inr [(''thrustmap_clean_'' @ tm_name args @ ''.csv'', clean)])
            else Inr []) = Inr o3"
    by (simp add: s)
  then obtain o3 where C: "(if keep_cols df ?thr ?rpm tc \<noteq> []
            then (case select df (keep_cols df ?thr ?rpm tc) of
                    Inl e \<Rightarrow> Inl e
                  | Inr clean \<Rightarrow> Inr [(''thrustmap_clean_'' @ tm_name args @ ''.csv'', clean)])
            else Inr []) = Inr o3" ..
  have "thrust_map_main asort args df0 =
       \<lparr>files = o1 @ o2 @ o3, status = (if o1 @ o2 @ o3 = [] then Exited 1 else Completed)\<rparr>"
    by (simp only: thrust_map_main_def e a sum.case prod.case Let_def
        A [unfolded prod.case] B [unfolded prod.case] C)
  then show ?thesis by blast
qed

subsection \<open>Binned means of process\_efficiency\<close>






lemma derive_power_total: "\<exists>df. derive_power df0 = Inr df"
  by (auto simp: derive_power_def getitem_def in_columns_map_of)
















subsection \<open>How a run of process\_efficiency ends\<close>


lemma efficiency_main_files:
  "status (efficiency_main args df0) \<noteq> Completed \<Longrightarrow> files (efficiency_main args df0) = []"
  "status (efficiency_main args df0) = Completed \<Longrightarrow> length (files (efficiency_main args df0)) = 1"
  by (auto simp: efficiency_main_def Let_def split: sum.splits option.splits if_splits)







subsection \<open>Output of completed runs\<close>

lemma convert_main_files:
  "status (convert_main asort args file_rows) = Completed \<Longrightarrow>
   length (files (convert_main asort args file_rows)) = 2"
  by (auto simp: convert_main_def Let_def split: sum.splits prod.splits)

text \<open>
  C6 (amended). Every run of one of the three scripts that completes has written
  one or more CSVs: convert\_thrust\_lookup two, process\_efficiency one,
  process\_thrust\_map at least one. A run of process\_thrust\_map that does not
  complete has exited with status 1 and written nothing.
\<close>

theorem completed_runs_write_output:
  "(status (convert_main asort ca file_rows) = Completed
      \<longrightarrow> length (files (convert_main asort ca file_rows)) = 2)
   \<and> (status (efficiency_main ea elog) = Completed
      \<longrightarrow> length (files (efficiency_main ea elog)) = 1)
   \<and> (status (thrust_map_main asort ta tlog) = Completed
      \<longrightarrow> files (thrust_map_main asort ta tlog) \<noteq> [])
   \<and> (status (thrust_map_main asort ta tlog) \<noteq> Completed
      \<longrightarrow> status (thrust_map_main asort ta tlog) = Exited 1
          \<and> files (thrust_map_main asort ta tlog) = [])"
proof -
  obtain written where
    "thrust_map_main asort ta tlog =
       \<lparr>files = written, status = (if written = [] then Exited 1 else Completed)\<rparr>"
    using thrust_map_main_shape by blast
  then have "(status (thrust_map_main asort ta tlog) = Completed
      \<longrightarrow> files (thrust_map_main asort ta tlog) \<noteq> [])
   \<and> (status (thrust_map_main asort ta tlog) \<noteq> Completed
      \<longrightarrow> status (thrust_map_main asort ta tlog) = Exited 1
          \<and> files (thrust_map_main asort ta tlog) = [])"
    by (cases "written = []") simp_all
  then show ?thesis
    using convert_main_files [of asort ca file_rows] efficiency_main_files(2) [of ea elog]
    by blast
qed

theorem completed_runs_write_output_witness:
  "status (convert_main stable_argsort
        \<lparr>cv_name = ''m'', cv_voltage = None, cv_min_cmd = None, cv_max_cmd = None\<rparr>
        [[2, 0, 1, 10, 12], [100, 200, 0, 0, 0], [300, 400, 0, 0, 0]]) = Completed
   \<and> length (files (convert_main stable_argsort
        \<lparr>cv_name = ''m'', cv_voltage = None, cv_min_cmd = None, cv_max_cmd = None\<rparr>
        [[2, 0, 1, 10, 12], [100, 200, 0, 0, 0], [300, 400, 0, 0, 0]])) = 2
   \<and> status (efficiency_main \<lparr>ef_name = ''m'', ef_bins = 2\<rparr>
        [(''speed_mps'', [Some 1, Some 2, Some 3]), (''power_W'', [Some 4, Some 5, Some 6])])
       = Completed
   \<and> length (files (efficiency_main \<lparr>ef_name = ''m'', ef_bins = 2\<rparr>
        [(''speed_mps'', [Some 1, Some 2, Some 3]), (''power_W'', [Some 4, Some 5, Some 6])])) = 1
   \<and> status (thrust_map_main stable_argsort \<lparr>tm_name = ''m''\<rparr>
        [(''time_s'', [Some 0]), (''thrust_kgf'', [Some 1])]) = Completed
   \<and> files (thrust_map_main stable_argsort \<lparr>tm_name = ''m''\<rparr>
        [(''time_s'', [Some 0]), (''thrust_kgf'', [Some 1])]) \<noteq> []"
proof -
  have 1: "status (convert_main stable_argsort
        \<lparr>cv_name = ''m'', cv_voltage = None, cv_min_cmd = None, cv_max_cmd = None\<rparr>
        [[2, 0, 1, 10, 12], [100, 200, 0, 0, 0], [300, 400, 0, 0, 0]]) = Completed"
    by code_simp
  have 2: "status (efficiency_main \<lparr>ef_name = ''m'', ef_bins = 2\<rparr>
        [(''speed_mps'', [Some 1, Some 2, Some 3]), (''power_W'', [Some 4, Some 5, Some 6])])
       = Completed"
    by code_simp
  have 3: "status (thrust_map_main stable_argsort \<lparr>tm_name = ''m''\<rparr>
        [(''time_s'', [Some 0]), (''thrust_kgf'', [Some 1])]) = Completed"
    by code_simp
  show ?thesis
    using 1 2 3 completed_runs_write_output [of stable_argsort
        "\<lparr>cv_name = ''m'', cv_voltage = None, cv_min_cmd = None, cv_max_cmd = None\<rparr>"
        "[[2, 0, 1, 10, 12], [100, 200, 0, 0, 0], [300, 400, 0, 0, 0]]"
        "\<lparr>ef_name = ''m'', ef_bins = 2\<rparr>"
        "[(''speed_mps'', [Some 1, Some 2, Some 3]), (''power_W'', [Some 4, Some 5, Some 6])]"
        "\<lparr>tm_name = ''m''\<rparr>"
        "[(''time_s'', [Some 0]), (''thrust_kgf'', [Some 1])]"]
    by blast
qed

text \<open>
  The claim as first stated, output on every run, fails: each script has readable
  inputs on which it writes nothing.
\<close>

theorem runs_without_output:
  "thrust_map_main stable_argsort \<lparr>tm_name = ''m''\<rparr> [(''speed_mps'', [Some 1, Some 2])]
     = \<lparr>files = [], status = Exited 1\<rparr>
   \<and> efficiency_main \<lparr>ef_name = ''m'', ef_bins = 12\<rparr> [(''rpm'', [Some 1, Some 2])]
     = \<lparr>files = [], status = Raised ValueError\<rparr>
   \<and> convert_main stable_argsort
        \<lparr>cv_name = ''m'', cv_voltage = None, cv_min_cmd = None, cv_max_cmd = None\<rparr>
        [[2, 0, 1, 10, 12]]
     = \<lparr>files = [], status = Raised IndexError\<rparr>"
  by code_simp

end
